theory Spec2Isabelle
  imports Main "HOL-Library.Word" "HOL-Library.AList"
begin

unbundle bit_operations_syntax

section \<open>Paths: the fragment of Go's \<open>path/filepath\<close> the handlers call (Unix)\<close>

text \<open>
  A Go \<open>string\<close> is a byte sequence, here a \<open>string\<close>. The separator is \<open>/\<close>.
  \<open>split_slash\<close> is \<open>strings.Split(s, "/")\<close> and \<open>join_slash\<close> is
  \<open>strings.Join(elems, "/")\<close>.
\<close>

fun split_slash :: "string \<Rightarrow> string list" where
  "split_slash [] = [[]]"
| "split_slash (c # cs) =
     (if c = CHR ''/'' then [] # split_slash cs
      else (case split_slash cs of [] \<Rightarrow> [[c]] | x # xs \<Rightarrow> (c # x) # xs))"

fun join_slash :: "string list \<Rightarrow> string" where
  "join_slash [] = []"
| "join_slash [x] = x"
| "join_slash (x # y # ys) = x @ ''/'' @ join_slash (y # ys)"

definition IsAbs :: "string \<Rightarrow> bool" where
  "IsAbs p = (case p of [] \<Rightarrow> False | c # _ \<Rightarrow> c = CHR ''/'')"

text \<open>
  One element of the path read by \<open>filepath.Clean\<close>; \<open>out\<close> is the stack of elements
  kept so far, most recent first. An empty element and \<open>.\<close> are dropped; \<open>..\<close> removes
  the element before it, is dropped at the root of a rooted path, and is kept at the start
  of a relative one.
\<close>

definition clean_step :: "bool \<Rightarrow> string list \<Rightarrow> string \<Rightarrow> string list" where
  "clean_step rooted out e =
     (if e = [] \<or> e = ''.'' then out
      else if e = ''..'' then
        (case out of
           [] \<Rightarrow> if rooted then [] else [''..'']
         | t # ts \<Rightarrow> if t = ''..'' then ''..'' # out else ts)
      else e # out)"

definition Clean :: "string \<Rightarrow> string" where
  "Clean p =
     (if p = [] then ''.''
      else
        let rooted = IsAbs p;
            body = join_slash (rev (foldl (clean_step rooted) [] (split_slash p)))
        in if rooted then ''/'' @ body
           else if body = [] then ''.'' else body)"

text \<open>
  \<open>filepath.Join\<close>: the elements from the first non-empty one on are joined with the
  separator and cleaned; with no non-empty element the result is the empty string.
\<close>

definition Join :: "string list \<Rightarrow> string" where
  "Join elem =
     (case dropWhile (\<lambda>e. e = []) elem of
        [] \<Rightarrow> []
      | e # es \<Rightarrow> Clean (join_slash (e # es)))"

section \<open>The world outside the handlers\<close>

text \<open>
  The handlers act on the file system of the host through Go's \<open>os\<close> package. The
  file system is a table from absolute, cleaned paths to nodes; symbolic links are not
  modelled. Whatever else makes a call fail on a real host (permissions, a full disk, a
  vanished mount) is the oracle \<open>fault\<close>: a call it selects returns an error and changes
  nothing. \<open>copy_cut\<close> is the same for \<open>io.Copy\<close>: at a destination it selects, the copy
  stops after that many bytes, with or without an error. Every call on a path is recorded in
  \<open>calls\<close> and every \<open>log.Printf\<close> in \<open>logged\<close>, so a handler that returns the world
  it was given has neither touched the file system nor logged.
\<close>

datatype node = FileNode "32 word" string | DirNode "32 word"

datatype errno = ENOENT | EEXIST | ENOTDIR | EISDIR | ENOTEMPTY | EINVAL | EBUSY | EIO

datatype fsop =
    OpStat string | OpOpen string | OpFStat string | OpFReadDir string | OpReadDir string
  | OpMkdir string | OpOpenFile string | OpCopy string | OpRemove string | OpRemoveAll string
  | OpGetwd

datatype log_event =
    LogLivenessFailed errno
  | LogMkdirError errno
  | LogCreatedDir string
  | LogFile string string int
  | LogOpenError
  | LogChecking string
  | LogExists string
  | LogCreateError errno
  | LogCopyError
  | LogRemoveError errno
  | LogSaved string
  | LogDeleteError errno

record world =
  files :: "(string \<times> node) list"
  cwd :: string
  umask :: "32 word"
  fault :: "fsop \<Rightarrow> bool"
  copy_cut :: "string \<Rightarrow> (nat \<times> bool) option"
  calls :: "fsop list"
  logged :: "log_event list"

definition called :: "fsop \<Rightarrow> world \<Rightarrow> world" where
  "called op w = w\<lparr>calls := calls w @ [op]\<rparr>"

definition log_Printf :: "log_event \<Rightarrow> world \<Rightarrow> world" where
  "log_Printf e w = w\<lparr>logged := logged w @ [e]\<rparr>"

definition IsDir :: "node \<Rightarrow> bool" where
  "IsDir n = (case n of DirNode _ \<Rightarrow> True | FileNode _ _ \<Rightarrow> False)"

text \<open>The absolute path the host resolves a path argument to (relative to \<open>cwd\<close>).\<close>

definition resolve :: "world \<Rightarrow> string \<Rightarrow> string" where
  "resolve w p = (if IsAbs p then Clean p else Join [cwd w, p])"

text \<open>
  \<open>filepath.Abs\<close>: an absolute path is cleaned; a relative one is joined to the working
  directory, and when \<open>os.Getwd\<close> fails the result is the empty string with an error.
\<close>

definition Abs :: "world \<Rightarrow> string \<Rightarrow> string \<times> errno option" where
  "Abs w p =
     (if IsAbs p then (Clean p, None)
      else if fault w OpGetwd then ([], Some EIO)
      else (Join [cwd w, p], None))"

definition parent_path :: "string \<Rightarrow> string" where
  "parent_path q =
     (let d = join_slash (butlast (split_slash q)) in if d = [] then ''/'' else d)"

definition base_name :: "string \<Rightarrow> string" where
  "base_name q = last (split_slash q)"

definition is_child :: "string \<Rightarrow> string \<Rightarrow> bool" where
  "is_child r q = (q \<noteq> ''/'' \<and> parent_path q = r)"

definition under :: "string \<Rightarrow> string \<Rightarrow> bool" where
  "under r q = (q = r \<or> r = ''/'' \<or> take (Suc (length r)) q = r @ ''/'')"

definition entries :: "world \<Rightarrow> string \<Rightarrow> (string \<times> bool) list" where
  "entries w q =
     map (\<lambda>(k, n). (base_name k, IsDir n)) (filter (\<lambda>(k, n). is_child q k) (files w))"

subsection \<open>The calls of package \<open>os\<close> and \<open>io\<close> the handlers make\<close>

definition os_Stat :: "world \<Rightarrow> string \<Rightarrow> (errno + node) \<times> world" where
  "os_Stat w p =
     (if p = [] then Inl ENOENT
      else if fault w (OpStat p) then Inl EIO
      else (case map_of (files w) (resolve w p) of None \<Rightarrow> Inl ENOENT | Some n \<Rightarrow> Inr n),
      called (OpStat p) w)"

definition os_ReadDir :: "world \<Rightarrow> string \<Rightarrow> (errno + (string \<times> bool) list) \<times> world" where
  "os_ReadDir w p =
     (if p = [] then Inl ENOENT
      else if fault w (OpReadDir p) then Inl EIO
      else (case map_of (files w) (resolve w p) of
              None \<Rightarrow> Inl ENOENT
            | Some (FileNode _ _) \<Rightarrow> Inl ENOTDIR
            | Some (DirNode _) \<Rightarrow> Inr (entries w (resolve w p))),
      called (OpReadDir p) w)"

text \<open>\<open>os.Open\<close>: the handle is the absolute path of the opened node.\<close>

definition os_Open :: "world \<Rightarrow> string \<Rightarrow> (errno + string) \<times> world" where
  "os_Open w p =
     (if p = [] then Inl ENOENT
      else if fault w (OpOpen p) then Inl EIO
      else (case map_of (files w) (resolve w p) of
              None \<Rightarrow> Inl ENOENT
            | Some _ \<Rightarrow> Inr (resolve w p)),
      called (OpOpen p) w)"

definition file_Stat :: "world \<Rightarrow> string \<Rightarrow> (errno + node) \<times> world" where
  "file_Stat w f =
     (if fault w (OpFStat f) then Inl EIO
      else (case map_of (files w) f of None \<Rightarrow> Inl ENOENT | Some n \<Rightarrow> Inr n),
      called (OpFStat f) w)"

definition file_ReadDir :: "world \<Rightarrow> string \<Rightarrow> (errno + (string \<times> bool) list) \<times> world" where
  "file_ReadDir w f =
     (if fault w (OpFReadDir f) then Inl EIO
      else (case map_of (files w) f of
              None \<Rightarrow> Inl ENOENT
            | Some (FileNode _ _) \<Rightarrow> Inl ENOTDIR
            | Some (DirNode _) \<Rightarrow> Inr (entries w f)),
      called (OpFReadDir f) w)"

text \<open>A node created with permission \<open>perm\<close> gets the bits the process's umask leaves.\<close>

definition os_Mkdir :: "world \<Rightarrow> string \<Rightarrow> 32 word \<Rightarrow> errno option \<times> world" where
  "os_Mkdir w p perm =
     (let w' = called (OpMkdir p) w; q = resolve w p in
      if p = [] then (Some ENOENT, w')
      else if fault w (OpMkdir p) then (Some EIO, w')
      else (case map_of (files w) q of
              Some _ \<Rightarrow> (Some EEXIST, w')
            | None \<Rightarrow>
               (case map_of (files w) (parent_path q) of
                  None \<Rightarrow> (Some ENOENT, w')
                | Some (FileNode _ _) \<Rightarrow> (Some ENOTDIR, w')
                | Some (DirNode _) \<Rightarrow>
                   (None, w'\<lparr>files := AList.update q (DirNode (perm AND NOT (umask w))) (files w)\<rparr>))))"

definition os_IsExist :: "errno \<Rightarrow> bool" where
  "os_IsExist e = (e = EEXIST \<or> e = ENOTEMPTY)"

definition O_WRONLY :: "32 word" where "O_WRONLY = 0x1"
definition O_CREATE :: "32 word" where "O_CREATE = 0x40"
definition O_EXCL :: "32 word" where "O_EXCL = 0x80"

text \<open>
  \<open>os.OpenFile\<close> for writing. With \<open>O_CREATE\<close> and \<open>O_EXCL\<close> both set the call fails on
  a path that exists; with \<open>O_CREATE\<close> it makes an empty regular file on a path that does
  not.
\<close>

definition os_OpenFile :: "world \<Rightarrow> string \<Rightarrow> 32 word \<Rightarrow> 32 word \<Rightarrow> errno option \<times> world" where
  "os_OpenFile w p flag perm =
     (let w' = called (OpOpenFile p) w; q = resolve w p in
      if p = [] then (Some ENOENT, w')
      else if fault w (OpOpenFile p) then (Some EIO, w')
      else (case map_of (files w) q of
              Some n \<Rightarrow>
                if flag AND O_CREATE \<noteq> 0 \<and> flag AND O_EXCL \<noteq> 0 then (Some EEXIST, w')
                else if IsDir n then (Some EISDIR, w')
                else (None, w')
            | None \<Rightarrow>
                if flag AND O_CREATE = 0 then (Some ENOENT, w')
                else
                  (case map_of (files w) (parent_path q) of
                     None \<Rightarrow> (Some ENOENT, w')
                   | Some (FileNode _ _) \<Rightarrow> (Some ENOTDIR, w')
                   | Some (DirNode _) \<Rightarrow>
                      (None,
                       w'\<lparr>files := AList.update q (FileNode (perm AND NOT (umask w)) []) (files w)\<rparr>))))"

text \<open>
  \<open>io.Copy(dst, src)\<close> onto the file opened at \<open>p\<close>: the bytes written, whether an error
  is returned, and the world with those bytes in the file.
\<close>

definition io_Copy :: "world \<Rightarrow> string \<Rightarrow> string \<Rightarrow> int \<times> bool \<times> world" where
  "io_Copy w p src =
     (let (n, e) = (case copy_cut w p of
                      None \<Rightarrow> (length src, False)
                    | Some (k, e) \<Rightarrow> (min k (length src), e));
          q = resolve w p
      in (int n, e,
          (called (OpCopy p) w)
            \<lparr>files := (case map_of (files w) q of
                         Some (FileNode m _) \<Rightarrow> AList.update q (FileNode m (take n src)) (files w)
                       | _ \<Rightarrow> files w)\<rparr>))"

definition os_Remove :: "world \<Rightarrow> string \<Rightarrow> errno option \<times> world" where
  "os_Remove w p =
     (let w' = called (OpRemove p) w; q = resolve w p in
      if p = [] then (Some ENOENT, w')
      else if fault w (OpRemove p) then (Some EIO, w')
      else (case map_of (files w) q of
              None \<Rightarrow> (Some ENOENT, w')
            | Some n \<Rightarrow>
                if IsDir n \<and> filter (\<lambda>(k, n). is_child q k) (files w) \<noteq> []
                then (Some ENOTEMPTY, w')
                else (None, w'\<lparr>files := AList.delete q (files w)\<rparr>)))"

definition ends_with_dot :: "string \<Rightarrow> bool" where
  "ends_with_dot p =
     (case rev p of
        [] \<Rightarrow> False
      | [c] \<Rightarrow> c = CHR ''.''
      | c # d # _ \<Rightarrow> c = CHR ''.'' \<and> d = CHR ''/'')"

text \<open>
  \<open>os.RemoveAll\<close>: nothing to do on the empty path, refused on a path that ends in a
  \<open>.\<close> element, and otherwise the path and everything under it are removed; a path that
  does not exist is no error. The root of the file system loses its contents but cannot be
  removed itself.
\<close>

definition os_RemoveAll :: "world \<Rightarrow> string \<Rightarrow> errno option \<times> world" where
  "os_RemoveAll w p =
     (let w' = called (OpRemoveAll p) w; q = resolve w p in
      if p = [] then (None, w')
      else if ends_with_dot p then (Some EINVAL, w')
      else if fault w (OpRemoveAll p) then (Some EIO, w')
      else if q = ''/'' then
        (Some EBUSY, w'\<lparr>files := filter (\<lambda>(k, n). k = ''/'') (files w)\<rparr>)
      else (None, w'\<lparr>files := filter (\<lambda>(k, n). \<not> under q k) (files w)\<rparr>))"

section \<open>HTTP responses\<close>

text \<open>
  What a handler writes to its \<open>http.ResponseWriter\<close>. \<open>Response\<close> is a status with a
  body. \<open>DirListing path links\<close> is the HTML index of a directory: the resolved path in
  its title and header and one list item per entry, as (link target, link text).
  \<open>ServeFile path\<close> hands the request over to \<open>http.ServeFile\<close> for that path.
\<close>

datatype response =
    Response nat string
  | DirListing string "(string \<times> string) list"
  | ServeFile string

abbreviation StatusOK :: nat where "StatusOK \<equiv> 200"
abbreviation StatusBadRequest :: nat where "StatusBadRequest \<equiv> 400"
abbreviation StatusForbidden :: nat where "StatusForbidden \<equiv> 403"
abbreviation StatusNotFound :: nat where "StatusNotFound \<equiv> 404"
abbreviation StatusConflict :: nat where "StatusConflict \<equiv> 409"
abbreviation StatusInternalServerError :: nat where "StatusInternalServerError \<equiv> 500"

text \<open>\<open>http.Error\<close> replies with the status and the message followed by a newline.\<close>

definition http_Error :: "string \<Rightarrow> nat \<Rightarrow> response" where
  "http_Error msg code = Response code (msg @ [CHR 0x0A])"

section \<open>The handlers of \<open>main.go\<close>\<close>

text \<open>Each handler takes the world and \<open>dirPrefix\<close>, the value of the \<open>-prefix\<close> flag.\<close>

subsection \<open>\<open>GET /readyz\<close> and \<open>GET /livez\<close>\<close>

definition readyz_handler :: "world \<Rightarrow> response \<times> world" where
  "readyz_handler w = (Response StatusOK ''ok'', w)"

definition livez_handler :: "world \<Rightarrow> string \<Rightarrow> response \<times> world" where
  "livez_handler w dirPrefix =
     (case os_ReadDir w dirPrefix of
        (Inl err, w1) \<Rightarrow>
          (http_Error ''Cannot read directory'' StatusInternalServerError,
           log_Printf (LogLivenessFailed err) w1)
      | (Inr _, w1) \<Rightarrow> (Response StatusOK ''ok'', w1))"

subsection \<open>\<open>GET /\<close>\<close>

definition list_item :: "string \<times> bool \<Rightarrow> string \<times> string" where
  "list_item file =
     (let name = (if snd file then fst file @ ''/'' else fst file)
      in (Join [name], name))"

definition get_handler :: "world \<Rightarrow> string \<Rightarrow> string \<Rightarrow> response \<times> world" where
  "get_handler w dirPrefix urlPath =
     (let path = Join [dirPrefix, urlPath] in
      case os_Open w path of
        (Inl _, w1) \<Rightarrow> (http_Error ''File not found'' StatusNotFound, w1)
      | (Inr f, w1) \<Rightarrow>
         (case file_Stat w1 f of
            (Inl _, w2) \<Rightarrow>
              (http_Error ''Error getting file info'' StatusInternalServerError, w2)
          | (Inr fileInfo, w2) \<Rightarrow>
              if IsDir fileInfo then
                (case file_ReadDir w2 f of
                   (Inl _, w3) \<Rightarrow>
                     (http_Error ''Error reading directory'' StatusInternalServerError, w3)
                 | (Inr fs, w3) \<Rightarrow> (DirListing path (map list_item fs), w3))
              else (ServeFile path, w2)))"

subsection \<open>\<open>POST /\<close>\<close>

text \<open>
  A \<open>multipart.FileHeader\<close>: the declared file name and size, and what \<open>file.Open()\<close>
  gives: whether it succeeds, and the bytes the opened source then delivers.
\<close>

record FileHeader =
  Filename :: string
  Size :: int
  open_ok :: bool
  src_bytes :: string

text \<open>
  A \<open>multipart.Form\<close>. \<open>Value\<close> and \<open>File\<close> are Go maps, here tables read with
  \<open>map_of\<close>; the position of a key in the table means nothing.
\<close>

record Form =
  Value :: "(string \<times> string list) list"
  File :: "(string \<times> FileHeader list) list"

text \<open>
  \<open>for key, files := range m\<close> over a Go map visits every key once, in an order the
  runtime chooses afresh for each loop. \<open>ks\<close> is that order.
\<close>

definition range_order :: "('k \<times> 'v) list \<Rightarrow> 'k list \<Rightarrow> bool" where
  "range_order m ks = (distinct ks \<and> set ks = set (map fst m))"

definition range_map :: "('k \<times> 'v) list \<Rightarrow> 'k list \<Rightarrow> ('k \<times> 'v) list" where
  "range_map m ks =
     concat (map (\<lambda>k. case map_of m k of None \<Rightarrow> [] | Some v \<Rightarrow> [(k, v)]) ks)"

definition perm_0755 :: "32 word" where "perm_0755 = 0x1ED"
definition perm_0444 :: "32 word" where "perm_0444 = 0x124"

text \<open>
  The body of the inner loop for one file: \<open>None\<close> when the loop goes on to the next
  file (the end of the body, or \<open>continue\<close>), \<open>Some r\<close> when the handler has answered
  \<open>r\<close> and returned.
\<close>

definition upload_file ::
  "world \<Rightarrow> string \<Rightarrow> string \<Rightarrow> string \<Rightarrow> FileHeader \<Rightarrow> response option \<times> world"
where
  "upload_file w dirPrefix dirName key file =
     (let w0 = log_Printf (LogFile key (Filename file) (Size file)) w in
      if \<not> open_ok file then (None, log_Printf LogOpenError w0)
      else
        let filePath = Join [dirPrefix, dirName, Filename file];
            w1 = log_Printf (LogChecking filePath) w0
        in case os_Stat w1 filePath of
             (Inr _, w2) \<Rightarrow>
               (Some (http_Error ''File already exists'' StatusConflict),
                log_Printf (LogExists filePath) w2)
           | (Inl _, w2) \<Rightarrow>
              (case os_OpenFile w2 filePath (O_WRONLY OR O_CREATE OR O_EXCL) perm_0444 of
                 (Some err, w3) \<Rightarrow>
                   (Some (http_Error ''Unable to create file'' StatusInternalServerError),
                    log_Printf (LogCreateError err) w3)
               | (None, w3) \<Rightarrow>
                  (case io_Copy w3 filePath (src_bytes file) of
                     (writtenSize, err, w4) \<Rightarrow>
                       if err \<or> writtenSize \<noteq> Size file then
                         (case os_Remove (log_Printf LogCopyError w4) filePath of
                            (removeErr, w5) \<Rightarrow>
                              (Some (http_Error ''Error copying file'' StatusInternalServerError),
                               (case removeErr of
                                  Some e \<Rightarrow> log_Printf (LogRemoveError e) w5
                                | None \<Rightarrow> w5)))
                       else (None, log_Printf (LogSaved filePath) w4))))"

fun upload_files ::
  "world \<Rightarrow> string \<Rightarrow> string \<Rightarrow> string \<Rightarrow> FileHeader list \<Rightarrow> response option \<times> world"
where
  "upload_files w dirPrefix dirName key [] = (None, w)"
| "upload_files w dirPrefix dirName key (file # rest) =
     (case upload_file w dirPrefix dirName key file of
        (Some r, w') \<Rightarrow> (Some r, w')
      | (None, w') \<Rightarrow> upload_files w' dirPrefix dirName key rest)"

fun upload_fields ::
  "world \<Rightarrow> string \<Rightarrow> string \<Rightarrow> (string \<times> FileHeader list) list \<Rightarrow> response option \<times> world"
where
  "upload_fields w dirPrefix dirName [] = (None, w)"
| "upload_fields w dirPrefix dirName ((key, fs) # rest) =
     (case upload_files w dirPrefix dirName key fs of
        (Some r, w') \<Rightarrow> (Some r, w')
      | (None, w') \<Rightarrow> upload_fields w' dirPrefix dirName rest)"

text \<open>
  The request gives \<open>form\<close>, what \<open>r.ParseMultipartForm\<close> leaves in \<open>r.MultipartForm\<close>
  (\<open>None\<close> when it returns an error), and \<open>ks\<close>, the order in which the runtime ranges
  over \<open>r.MultipartForm.File\<close>.
\<close>

definition post_handler ::
  "world \<Rightarrow> string \<Rightarrow> Form option \<Rightarrow> string list \<Rightarrow> response \<times> world"
where
  "post_handler w dirPrefix form ks =
     (case form of
        None \<Rightarrow> (http_Error ''Unable to parse form'' StatusBadRequest, w)
      | Some multipartForm \<Rightarrow>
         (case map_of (Value multipartForm) ''name'' of
            Some (dirName # _) \<Rightarrow>
              (case os_Mkdir w (Join [dirPrefix, dirName]) perm_0755 of
                 (err, w1) \<Rightarrow>
                   if (case err of None \<Rightarrow> False | Some e \<Rightarrow> \<not> os_IsExist e) then
                     (http_Error ''Unable to create directory'' StatusInternalServerError,
                      (case err of
                         Some e \<Rightarrow> log_Printf (LogMkdirError e) w1
                       | None \<Rightarrow> w1))
                   else
                     (case upload_fields (log_Printf (LogCreatedDir dirName) w1)
                             dirPrefix dirName (range_map (File multipartForm) ks) of
                        (Some r, w2) \<Rightarrow> (r, w2)
                      | (None, w2) \<Rightarrow>
                          (Response StatusOK ''Form data received and printed'', w2)))
          | _ \<Rightarrow> (http_Error ''Directory name not provided'' StatusBadRequest, w)))"

subsection \<open>\<open>DELETE /\<close>\<close>

definition delete_handler :: "world \<Rightarrow> string \<Rightarrow> string \<Rightarrow> response \<times> world" where
  "delete_handler w dirPrefix relPath =
     (if relPath = ''/'' \<or> relPath = [] \<or> relPath = ''*'' \<or> relPath = ''/*'' then
        (http_Error ''Refusing to delete root or wildcard path'' StatusForbidden, w)
      else
        let path = Join [dirPrefix, relPath];
            absPrefix = fst (Abs w dirPrefix);
            absPath = fst (Abs w path)
        in if absPrefix = absPath then
             (http_Error ''Refusing to delete root directory'' StatusForbidden, w)
           else if length relPath = 0 \<or> relPath = ''/'' \<or> relPath = ''*'' \<or> relPath = ''/*''
           then (http_Error ''Invalid delete path'' StatusForbidden, w)
           else
             (case os_Stat w path of
                (Inl _, w1) \<Rightarrow>
                  (http_Error ''File or directory not found'' StatusNotFound, w1)
              | (Inr info, w1) \<Rightarrow>
                 (case (if IsDir info then os_RemoveAll w1 path else os_Remove w1 path) of
                    (Some removeErr, w2) \<Rightarrow>
                      (http_Error ''Unable to delete'' StatusInternalServerError,
                       log_Printf (LogDeleteError removeErr) w2)
                  | (None, w2) \<Rightarrow> (Response StatusOK ''Deleted'', w2))))"

subsection \<open>The order in which the upload handler takes up the file parts\<close>

text \<open>
  The first thing the inner loop does with a part is to log its field, name and size
  (\<open>main.go:119\<close>). \<open>parts_started\<close> reads these entries back from the log: the
  parts taken up so far, in order. \<open>form_order kfs\<close> is what a complete run over the
  fields \<open>kfs\<close> logs: field after field, each field's list in list order.
\<close>

definition is_LogFile :: "log_event \<Rightarrow> bool" where
  "is_LogFile e = (case e of LogFile _ _ _ \<Rightarrow> True | _ \<Rightarrow> False)"

definition parts_started :: "world \<Rightarrow> log_event list" where
  "parts_started w = filter is_LogFile (logged w)"

definition announce :: "string \<Rightarrow> FileHeader \<Rightarrow> log_event" where
  "announce key file = LogFile key (Filename file) (Size file)"

definition form_order :: "(string \<times> FileHeader list) list \<Rightarrow> log_event list" where
  "form_order kfs = concat (map (\<lambda>(key, fs). map (announce key) fs) kfs)"

section \<open>A small host for concrete runs\<close>

text \<open>
  The server runs with \<open>-prefix /srv/data\<close> (or \<open>-prefix data\<close> from \<open>/srv\<close>). Beside
  the Root Directory, \<open>/srv\<close> holds a file that is not part of it.
\<close>

definition demo_files :: "(string \<times> node) list" where
  "demo_files =
     [(''/'', DirNode 0x1ED),
      (''/srv'', DirNode 0x1ED),
      (''/srv/data'', DirNode 0x1ED),
      (''/srv/data/a.txt'', FileNode 0x124 ''hello''),
      (''/srv/data/sub'', DirNode 0x1ED),
      (''/srv/data/sub/b.txt'', FileNode 0x124 ''bb''),
      (''/srv/secret.txt'', FileNode 0x124 ''s3cret'')]"

definition demo :: world where
  "demo =
     \<lparr>files = demo_files, cwd = ''/srv'', umask = 0x12,
      fault = (\<lambda>_. False), copy_cut = (\<lambda>_. None), calls = [], logged = []\<rparr>"

text \<open>
  Three uploaded parts: one that is delivered whole, one whose source delivers fewer
  bytes than the header declares, and one named like a file the Root Directory holds.
\<close>

definition whole_part :: FileHeader where
  "whole_part = \<lparr>Filename = ''x.txt'', Size = 3, open_ok = True, src_bytes = ''abc''\<rparr>"

definition short_part :: FileHeader where
  "short_part = \<lparr>Filename = ''x.txt'', Size = 4, open_ok = True, src_bytes = ''abc''\<rparr>"

definition taken_part :: FileHeader where
  "taken_part = \<lparr>Filename = ''a.txt'', Size = 2, open_ok = True, src_bytes = ''zz''\<rparr>"

text \<open>
  A form with two file fields, sent with \<open>name=sub\<close>: field \<open>a\<close> carries a part named
  like a file that \<open>sub\<close> holds, field \<open>b\<close> a part with a new name.
\<close>

definition sub_taken_part :: FileHeader where
  "sub_taken_part = \<lparr>Filename = ''b.txt'', Size = 1, open_ok = True, src_bytes = ''q''\<rparr>"

definition two_fields :: Form where
  "two_fields =
     \<lparr>Value = [(''name'', [''sub''])],
      File = [(''a'', [sub_taken_part]), (''b'', [whole_part])]\<rparr>"

text \<open>
  Two more forms, each with one part: one sent with an empty \<open>name\<close>, one whose
  \<open>name\<close> climbs out of the Root Directory.
\<close>

definition unnamed_form :: Form where
  "unnamed_form = \<lparr>Value = [(''name'', [[]])], File = [(''f'', [whole_part])]\<rparr>"

definition escaping_form :: Form where
  "escaping_form = \<lparr>Value = [(''name'', [''../evil''])], File = [(''f'', [whole_part])]\<rparr>"

section \<open>Logging and call records leave the file system alone\<close>

lemma log_Printf_fields [simp]:
  "files (log_Printf e w) = files w"
  "cwd (log_Printf e w) = cwd w"
  "umask (log_Printf e w) = umask w"
  "fault (log_Printf e w) = fault w"
  "copy_cut (log_Printf e w) = copy_cut w"
  "calls (log_Printf e w) = calls w"
  "logged (log_Printf e w) = logged w @ [e]"
  by (simp_all add: log_Printf_def)

lemma called_fields [simp]:
  "files (called op w) = files w"
  "cwd (called op w) = cwd w"
  "umask (called op w) = umask w"
  "fault (called op w) = fault w"
  "copy_cut (called op w) = copy_cut w"
  "calls (called op w) = calls w @ [op]"
  "logged (called op w) = logged w"
  by (simp_all add: called_def)

lemma resolve_cong: "cwd w' = cwd w \<Longrightarrow> resolve w' p = resolve w p"
  by (simp add: resolve_def)

lemma resolve_log_Printf [simp]: "resolve (log_Printf e w) p = resolve w p"
  by (simp add: resolve_def)

lemma resolve_called [simp]: "resolve (called op w) p = resolve w p"
  by (simp add: resolve_def)

section \<open>What \<open>Clean\<close> and \<open>Join\<close> do to a path\<close>

lemma split_slash_nonempty [simp]: "split_slash p \<noteq> []"
  by (induction p) (auto split: list.splits)

lemma split_slash_append: "split_slash (a @ CHR ''/'' # b) = split_slash a @ split_slash b"
proof (induction a)
  case Nil
  show ?case by simp
next
  case (Cons c a)
  then show ?case by (cases "split_slash a") auto
qed

lemma split_slash_no_slash: "e \<in> set (split_slash p) \<Longrightarrow> CHR ''/'' \<notin> set e"
  by (induction p arbitrary: e) (auto split: if_splits list.splits)

lemma split_slash_plain: "CHR ''/'' \<notin> set e \<Longrightarrow> split_slash e = [e]"
  by (induction e) auto

lemma split_join_slash:
  "xs \<noteq> [] \<Longrightarrow> \<forall>e \<in> set xs. CHR ''/'' \<notin> set e \<Longrightarrow> split_slash (join_slash xs) = xs"
proof (induction xs rule: join_slash.induct)
  case 1
  then show ?case by simp
next
  case (2 x)
  then show ?case by (simp add: split_slash_plain)
next
  case (3 x y ys)
  then show ?case
    using split_slash_append [of x "join_slash (y # ys)"] by (simp add: split_slash_plain)
qed

lemma clean_step_skip [simp]:
  "clean_step rooted out [] = out" "clean_step rooted out ''.'' = out"
  by (simp_all add: clean_step_def)

lemma clean_step_elems:
  "e \<in> set (clean_step rooted out x) \<Longrightarrow> e \<in> set out \<or> (e = x \<and> x \<noteq> [] \<and> x \<noteq> ''.'')"
  by (auto simp: clean_step_def split: if_splits list.splits)

lemma clean_stack_elems:
  "e \<in> set (foldl (clean_step rooted) out xs)
     \<Longrightarrow> e \<in> set out \<or> (e \<in> set xs \<and> e \<noteq> [] \<and> e \<noteq> ''.'')"
proof (induction xs arbitrary: e rule: rev_induct)
  case Nil
  then show ?case by simp
next
  case (snoc x xs)
  from snoc.prems have "e \<in> set (clean_step rooted (foldl (clean_step rooted) out xs) x)"
    by simp
  from clean_step_elems [OF this] snoc.IH show ?case by auto
qed

text \<open>Cleaning what has been cleaned already changes nothing for the path read after it.\<close>

lemma clean_stack_again:
  assumes "inner \<longrightarrow> rooted \<and> out = []"
  shows "foldl (clean_step rooted) out (rev (foldl (clean_step inner) [] xs))
           = foldl (clean_step rooted) out xs"
proof (induction xs rule: rev_induct)
  case Nil
  show ?case by simp
next
  case (snoc e xs)
  define N where "N = foldl (clean_step inner) [] xs"
  define T where "T = foldl (clean_step rooted) out xs"
  have IH: "foldl (clean_step rooted) out (rev N) = T"
    using snoc by (simp add: N_def T_def)
  have goal: "foldl (clean_step rooted) out (rev (clean_step inner N e)) = clean_step rooted T e"
  proof (cases "e = [] \<or> e = ''.''")
    case True
    then show ?thesis using IH by auto
  next
    case False
    show ?thesis
    proof (cases "e = ''..''")
      case False
      with \<open>\<not> (e = [] \<or> e = ''.'')\<close> show ?thesis
        using IH by (simp add: clean_step_def)
    next
      case True
      show ?thesis
      proof (cases N)
        case Nil
        with True IH assms show ?thesis
          by (auto simp: clean_step_def)
      next
        case (Cons t ts)
        show ?thesis
        proof (cases "t = ''..''")
          case True
          with \<open>e = ''..''\<close> Cons IH show ?thesis
            by (simp add: clean_step_def)
        next
          case False
          have "t \<in> set N" by (simp add: Cons)
          from clean_stack_elems [OF this [unfolded N_def]] have t: "t \<noteq> []" "t \<noteq> ''.''"
            by auto
          have "T = clean_step rooted (foldl (clean_step rooted) out (rev ts)) t"
            using IH by (simp add: Cons)
          with t False have "T = t # foldl (clean_step rooted) out (rev ts)"
            by (simp add: clean_step_def)
          with False \<open>e = ''..''\<close> Cons show ?thesis
            by (simp add: clean_step_def)
        qed
      qed
    qed
  qed
  then show ?case by (simp add: N_def T_def)
qed

lemma clean_stack_no_slash:
  "e \<in> set (foldl (clean_step rooted) [] (split_slash p)) \<Longrightarrow> CHR ''/'' \<notin> set e \<and> e \<noteq> []"
  using clean_stack_elems [of e rooted "[]" "split_slash p"] split_slash_no_slash [of e p]
  by auto

lemma split_clean_body:
  assumes "N = foldl (clean_step rooted) [] (split_slash p)" and "N \<noteq> []"
  shows "split_slash (join_slash (rev N)) = rev N"
  using assms clean_stack_no_slash [of _ rooted p] by (intro split_join_slash) auto

lemma join_slash_empty_iff:
  "\<forall>e \<in> set xs. e \<noteq> [] \<Longrightarrow> join_slash xs = [] \<longleftrightarrow> xs = []"
  by (induction xs rule: join_slash.induct) auto

lemma join_slash_hd:
  "xs \<noteq> [] \<Longrightarrow> hd xs \<noteq> [] \<Longrightarrow> join_slash xs \<noteq> [] \<and> hd (join_slash xs) = hd (hd xs)"
  by (induction xs rule: join_slash.induct) auto


lemma Clean_nonempty [simp]: "Clean p \<noteq> []"
  by (simp add: Clean_def Let_def)

lemma Clean_absolute:
  assumes "IsAbs p"
  shows "IsAbs (Clean p)"
    and "Clean (Clean p) = Clean p"
proof -
  define N where "N = foldl (clean_step True) [] (split_slash p)"
  have p: "p \<noteq> []" using assms by (auto simp: IsAbs_def)
  have c: "Clean p = ''/'' @ join_slash (rev N)"
    using assms p by (simp add: Clean_def Let_def N_def)
  show abs: "IsAbs (Clean p)"
    by (simp add: c IsAbs_def)
  have sp: "split_slash (Clean p) = [] # split_slash (join_slash (rev N))"
    using split_slash_append [of "[]" "join_slash (rev N)"] by (simp add: c)
  have "foldl (clean_step True) [] (split_slash (Clean p)) = N"
  proof (cases "N = []")
    case True
    then show ?thesis by (simp add: sp)
  next
    case False
    have "foldl (clean_step True) [] (rev (foldl (clean_step True) [] (split_slash p)))
            = foldl (clean_step True) [] (split_slash p)"
      by (rule clean_stack_again) simp
    with False show ?thesis
      by (simp add: sp split_clean_body [OF N_def] N_def [symmetric])
  qed
  with abs have "Clean (Clean p) = ''/'' @ join_slash (rev N)"
    by (simp add: Clean_def [of "Clean p"] Let_def)
  then show "Clean (Clean p) = Clean p"
    by (simp add: c)
qed

lemma Clean_relative:
  assumes "\<not> IsAbs p" and "p \<noteq> []"
  shows "\<not> IsAbs (Clean p)"
    and "foldl (clean_step rooted) out (split_slash (Clean p))
           = foldl (clean_step rooted) out (split_slash p)"
proof -
  define N where "N = foldl (clean_step False) [] (split_slash p)"
  have again: "foldl (clean_step rooted) out (rev N) = foldl (clean_step rooted) out (split_slash p)"
    unfolding N_def by (rule clean_stack_again) simp
  have elems: "\<forall>e \<in> set (rev N). e \<noteq> [] \<and> CHR ''/'' \<notin> set e"
    using clean_stack_no_slash [of _ False p] by (auto simp: N_def)
  show "\<not> IsAbs (Clean p)"
  proof (cases "N = []")
    case True
    with assms show ?thesis by (simp add: Clean_def Let_def N_def [symmetric] IsAbs_def)
  next
    case False
    then have ne: "rev N \<noteq> []" by simp
    then have h: "hd (rev N) \<in> set (rev N)" by (rule hd_in_set)
    with elems have h': "hd (rev N) \<noteq> []" "CHR ''/'' \<notin> set (hd (rev N))" by auto
    from join_slash_hd [OF ne h'(1)]
    have b: "join_slash (rev N) \<noteq> []" "hd (join_slash (rev N)) = hd (hd (rev N))" by auto
    have "hd (hd (rev N)) \<in> set (hd (rev N))" using h'(1) by (rule hd_in_set)
    with h'(2) have "hd (hd (rev N)) \<noteq> CHR ''/''" by auto
    with b assms show ?thesis
      by (cases "join_slash (rev N)") (auto simp: Clean_def Let_def N_def [symmetric] IsAbs_def)
  qed
  show "foldl (clean_step rooted) out (split_slash (Clean p))
          = foldl (clean_step rooted) out (split_slash p)"
  proof (cases "N = []")
    case True
    with assms again show ?thesis by (simp add: Clean_def Let_def N_def [symmetric])
  next
    case False
    with elems have "join_slash (rev N) \<noteq> []"
      using join_slash_empty_iff [of "rev N"] by auto
    with assms again False show ?thesis
      by (simp add: Clean_def Let_def N_def [symmetric] split_clean_body [OF N_def])
  qed
qed

lemma Clean_twice: "Clean (Clean p) = Clean p"
proof (cases "p = []")
  case True
  show ?thesis unfolding True by code_simp
next
  case False
  show ?thesis
  proof (cases "IsAbs p")
    case True
    then show ?thesis by (rule Clean_absolute(2))
  next
    case False
    note r = Clean_relative [OF False \<open>p \<noteq> []\<close>]
    from r(1) r(2) [of False "[]"] False \<open>p \<noteq> []\<close> show ?thesis
      by (simp add: Clean_def [of "Clean p"] Let_def) (simp add: Clean_def Let_def)
  qed
qed

lemma Clean_behind:
  assumes "a \<noteq> []" and "\<not> IsAbs p" and "p \<noteq> []"
  shows "Clean (a @ CHR ''/'' # Clean p) = Clean (a @ CHR ''/'' # p)"
proof -
  have abs: "IsAbs (a @ CHR ''/'' # Clean p) = IsAbs (a @ CHR ''/'' # p)"
    using assms(1) by (cases a) (simp_all add: IsAbs_def)
  have "foldl (clean_step r) [] (split_slash (a @ CHR ''/'' # Clean p))
          = foldl (clean_step r) [] (split_slash (a @ CHR ''/'' # p))" for r
    using Clean_relative(2) [OF assms(2,3)] by (simp add: split_slash_append)
  with abs assms(1) show ?thesis
    by (simp add: Clean_def Let_def)
qed

lemma Join_two: "a \<noteq> [] \<Longrightarrow> Join [a, b] = Clean (a @ CHR ''/'' # b)"
  by (simp add: Join_def)

lemma resolve_Clean: "p \<noteq> [] \<Longrightarrow> resolve w (Clean p) = resolve w p"
proof (cases "IsAbs p")
  case True
  then show ?thesis by (simp add: resolve_def Clean_absolute)
next
  case False
  assume p: "p \<noteq> []"
  show ?thesis
  proof (cases "cwd w = []")
    case True
    with False p Clean_relative(1) [OF False p] show ?thesis
      by (simp add: resolve_def Join_def Clean_twice)
  next
    case cwd: False
    with False p Clean_relative(1) [OF False p] show ?thesis
      by (simp add: resolve_def Join_two Clean_behind)
  qed
qed

lemma Join_empty_name: "dirPrefix \<noteq> [] \<Longrightarrow> Join [dirPrefix, []] = Clean dirPrefix"
proof -
  assume p: "dirPrefix \<noteq> []"
  have abs: "IsAbs (dirPrefix @ ''/'') = IsAbs dirPrefix"
    using p by (cases dirPrefix) (simp_all add: IsAbs_def)
  have "split_slash (dirPrefix @ ''/'') = split_slash dirPrefix @ [[]]"
    using split_slash_append [of dirPrefix "[]"] by simp
  with abs p show ?thesis
    by (simp add: Join_def Clean_def Let_def)
qed

lemma Join_skips_empty_name: "Join [dirPrefix, [], name] = Join [dirPrefix, name]"
proof (cases "dirPrefix = []")
  case True
  then show ?thesis by (simp add: Join_def)
next
  case False
  have abs: "IsAbs (dirPrefix @ CHR ''/'' # CHR ''/'' # name)
               = IsAbs (dirPrefix @ CHR ''/'' # name)"
    using False by (cases dirPrefix) (simp_all add: IsAbs_def)
  have "split_slash (dirPrefix @ CHR ''/'' # CHR ''/'' # name)
          = split_slash dirPrefix @ [] # split_slash name"
    using split_slash_append [of dirPrefix "CHR ''/'' # name"] by simp
  moreover have "split_slash (dirPrefix @ CHR ''/'' # name)
                   = split_slash dirPrefix @ split_slash name"
    by (rule split_slash_append)
  ultimately show ?thesis
    using False abs by (simp add: Join_def Clean_def Let_def)
qed

section \<open>Health probes\<close>

text \<open>
  C7. \<open>GET /livez\<close> answers 500 "Cannot read directory" exactly when \<open>os.ReadDir\<close> of
  the Root Directory returns an error, and 200 "ok" otherwise; \<open>GET /readyz\<close> answers
  200 "ok" whatever the state of the host.
\<close>

theorem livez_readyz_responses:
  "fst (livez_handler w dirPrefix) =
     (if isl (fst (os_ReadDir w dirPrefix))
      then http_Error ''Cannot read directory'' StatusInternalServerError
      else Response StatusOK ''ok'')
   \<and> (fst (livez_handler w dirPrefix)
          = http_Error ''Cannot read directory'' StatusInternalServerError
        \<longleftrightarrow> isl (fst (os_ReadDir w dirPrefix)))
   \<and> fst (readyz_handler w) = Response StatusOK ''ok''"
proof -
  obtain res w1 where rd: "os_ReadDir w dirPrefix = (res, w1)"
    by (cases "os_ReadDir w dirPrefix")
  show ?thesis
    by (cases res) (simp_all add: livez_handler_def readyz_handler_def rd http_Error_def)
qed

theorem livez_readyz_responses_witness:
  "fst (livez_handler demo ''/srv/data'') = Response StatusOK ''ok''
   \<and> \<not> isl (fst (os_ReadDir demo ''/srv/data''))
   \<and> fst (livez_handler demo ''/srv/gone'')
       = http_Error ''Cannot read directory'' StatusInternalServerError
   \<and> fst (readyz_handler demo) = Response StatusOK ''ok''"
proof -
  have ok: "\<not> isl (fst (os_ReadDir demo ''/srv/data''))"
    by code_simp
  have gone: "isl (fst (os_ReadDir demo ''/srv/gone''))"
    by code_simp
  from ok gone livez_readyz_responses [of demo "''/srv/data''"]
    livez_readyz_responses [of demo "''/srv/gone''"]
  show ?thesis by simp
qed

section \<open>The delete handler\<close>

lemma map_of_filter_key:
  "map_of (filter (\<lambda>(k, n). P k) xs) q = (if P q then map_of xs q else None)"
  by (induction xs) auto

lemma os_Stat_called [simp]: "fst (os_Stat (called op w) p) = fst (os_Stat w p)"
  by (simp add: os_Stat_def)

lemma os_Stat_log_Printf [simp]: "fst (os_Stat (log_Printf e w) p) = fst (os_Stat w p)"
  by (simp add: os_Stat_def)

lemma os_Stat_files [simp]: "files (snd (os_Stat w p)) = files w"
  by (simp add: os_Stat_def)

lemma os_RemoveAll_called:
  "fst (os_RemoveAll (called op w) p) = fst (os_RemoveAll w p)"
  "files (snd (os_RemoveAll (called op w) p)) = files (snd (os_RemoveAll w p))"
  by (simp_all add: os_RemoveAll_def Let_def)

lemma os_Remove_called:
  "fst (os_Remove (called op w) p) = fst (os_Remove w p)"
  "files (snd (os_Remove (called op w) p)) = files (snd (os_Remove w p))"
  by (simp_all add: os_Remove_def Let_def split: option.splits)

lemma os_RemoveAll_success:
  assumes "fst (os_RemoveAll w p) = None" and "p \<noteq> []"
  shows "map_of (files (snd (os_RemoveAll w p))) q
           = (if under (resolve w p) q then None else map_of (files w) q)"
  using assms
  by (auto simp: os_RemoveAll_def Let_def map_of_filter_key split: if_splits)

lemma os_Remove_success:
  assumes "fst (os_Remove w p) = None"
  shows "map_of (files (snd (os_Remove w p))) = (map_of (files w))(resolve w p := None)"
  using assms
  by (auto simp: os_Remove_def Let_def delete_conv' split: if_splits option.splits)

lemma delete_guards_reject:
  "relPath = ''/'' \<or> relPath = [] \<or> relPath = ''*'' \<or> relPath = ''/*''
     \<Longrightarrow> delete_handler w dirPrefix relPath
           = (http_Error ''Refusing to delete root or wildcard path'' StatusForbidden, w)"
  "\<not> (relPath = ''/'' \<or> relPath = [] \<or> relPath = ''*'' \<or> relPath = ''/*'')
     \<Longrightarrow> fst (Abs w dirPrefix) = fst (Abs w (Join [dirPrefix, relPath]))
     \<Longrightarrow> delete_handler w dirPrefix relPath
           = (http_Error ''Refusing to delete root directory'' StatusForbidden, w)"
  by (simp_all add: delete_handler_def Let_def)

lemma delete_handler_past_guards:
  assumes "\<not> (relPath = ''/'' \<or> relPath = [] \<or> relPath = ''*'' \<or> relPath = ''/*'')"
      and "fst (Abs w dirPrefix) \<noteq> fst (Abs w (Join [dirPrefix, relPath]))"
  shows "delete_handler w dirPrefix relPath =
     (case os_Stat w (Join [dirPrefix, relPath]) of
                (Inl _, w1) \<Rightarrow>
                  (http_Error ''File or directory not found'' StatusNotFound, w1)
              | (Inr info, w1) \<Rightarrow>
                 (case (if IsDir info then os_RemoveAll w1 (Join [dirPrefix, relPath]) else os_Remove w1 (Join [dirPrefix, relPath])) of
                    (Some removeErr, w2) \<Rightarrow>
                      (http_Error ''Unable to delete'' StatusInternalServerError,
                       log_Printf (LogDeleteError removeErr) w2)
                  | (None, w2) \<Rightarrow> (Response StatusOK ''Deleted'', w2)))"
  using assms by (simp add: delete_handler_def Let_def)

text \<open>
  C1, at the request \<open>DELETE /%2e%2e\<close>. The router hands the handler the decoded path
  \<open>/..\<close>; with \<open>-prefix /srv/data\<close> the joined path is \<open>/srv\<close>, which is not the
  Root Directory, so both guards let the request through: the handler calls
  \<open>os.RemoveAll\<close> on \<open>/srv\<close>, answers 200 "Deleted", and the Root Directory is gone
  with its parent. The guards themselves do what they announce
  (\<open>delete_guards_reject\<close>).
\<close>

theorem delete_parent_removes_root:
  "fst (delete_handler demo ''/srv/data'' ''/..'') = Response StatusOK ''Deleted''
   \<and> map_of (files demo) ''/srv/data'' = Some (DirNode 0x1ED)
   \<and> map_of (files (snd (delete_handler demo ''/srv/data'' ''/..''))) ''/srv/data'' = None
   \<and> calls (snd (delete_handler demo ''/srv/data'' ''/..''))
        = [OpStat ''/srv'', OpRemoveAll ''/srv'']"
  by code_simp

text \<open>
  C9. A path that has passed the first guard of the delete handler fails the condition
  of the repeated guard as well, and the handler never answers 403 "Invalid delete path".
\<close>

theorem delete_second_guard_unreachable:
  "(\<not> (relPath = ''/'' \<or> relPath = [] \<or> relPath = ''*'' \<or> relPath = ''/*'')
      \<longrightarrow> \<not> (length relPath = 0 \<or> relPath = ''/'' \<or> relPath = ''*'' \<or> relPath = ''/*''))
   \<and> fst (delete_handler w dirPrefix relPath)
        \<noteq> http_Error ''Invalid delete path'' StatusForbidden"
  by (auto simp: delete_handler_def Let_def http_Error_def split: prod.splits sum.splits option.splits)

theorem delete_second_guard_unreachable_witness:
  "\<not> (''/a.txt'' = ''/'' \<or> ''/a.txt'' = [] \<or> ''/a.txt'' = ''*'' \<or> ''/a.txt'' = ''/*'')
   \<and> \<not> (length ''/a.txt'' = 0 \<or> ''/a.txt'' = ''/'' \<or> ''/a.txt'' = ''*'' \<or> ''/a.txt'' = ''/*'')
   \<and> fst (delete_handler demo ''/srv/data'' ''/a.txt'')
        \<noteq> http_Error ''Invalid delete path'' StatusForbidden"
  using delete_second_guard_unreachable [of "''/a.txt''" demo "''/srv/data''"] by simp

text \<open>
  C6. A \<open>DELETE\<close> that has passed the guards on the raw path and on the Root Directory:
  when \<open>os.Stat\<close> of the joined path fails, the answer is 404 "File or directory not
  found" and the table of files is as before; on a directory the handler calls
  \<open>os.RemoveAll\<close>, on anything else \<open>os.Remove\<close>; when that call returns an error the
  answer is 500 "Unable to delete"; when it succeeds the answer is 200 "Deleted", and
  for a directory nothing is left at or under the path while every other path is as
  before, for a file exactly that path is gone.
\<close>

theorem delete_outcomes:
  assumes g1: "\<not> (relPath = ''/'' \<or> relPath = [] \<or> relPath = ''*'' \<or> relPath = ''/*'')"
      and g2: "fst (Abs w dirPrefix) \<noteq> fst (Abs w (Join [dirPrefix, relPath]))"
  shows "(case fst (os_Stat w (Join [dirPrefix, relPath])) of
            Inl _ \<Rightarrow>
              fst (delete_handler w dirPrefix relPath)
                = http_Error ''File or directory not found'' StatusNotFound
              \<and> files (snd (delete_handler w dirPrefix relPath)) = files w
          | Inr info \<Rightarrow>
              if IsDir info then
                (case fst (os_RemoveAll w (Join [dirPrefix, relPath])) of
                   Some _ \<Rightarrow>
                     fst (delete_handler w dirPrefix relPath)
                       = http_Error ''Unable to delete'' StatusInternalServerError
                 | None \<Rightarrow>
                     fst (delete_handler w dirPrefix relPath) = Response StatusOK ''Deleted''
                     \<and> (\<forall>q. map_of (files (snd (delete_handler w dirPrefix relPath))) q
                              = (if under (resolve w (Join [dirPrefix, relPath])) q then None
                                 else map_of (files w) q)))
              else
                (case fst (os_Remove w (Join [dirPrefix, relPath])) of
                   Some _ \<Rightarrow>
                     fst (delete_handler w dirPrefix relPath)
                       = http_Error ''Unable to delete'' StatusInternalServerError
                 | None \<Rightarrow>
                     fst (delete_handler w dirPrefix relPath) = Response StatusOK ''Deleted''
                     \<and> map_of (files (snd (delete_handler w dirPrefix relPath)))
                         = (map_of (files w))(resolve w (Join [dirPrefix, relPath]) := None)))"
proof -
  define path where "path = Join [dirPrefix, relPath]"
  obtain st w1 where st: "os_Stat w path = (st, w1)"
    by (cases "os_Stat w path")
  have w1: "w1 = called (OpStat path) w"
    using st by (simp add: os_Stat_def)
  note h = delete_handler_past_guards [OF g1 g2, folded path_def]
  show ?thesis
  proof (cases st)
    case (Inl e)
    with st h w1 show ?thesis by (simp add: path_def [symmetric])
  next
    case (Inr info)
    show ?thesis
    proof (cases "IsDir info")
      case True
      obtain r w2 where r: "os_RemoveAll w1 path = (r, w2)"
        by (cases "os_RemoveAll w1 path")
      have r': "fst (os_RemoveAll w path) = r" "files w2 = files (snd (os_RemoveAll w path))"
        using r os_RemoveAll_called [of "OpStat path" w path] by (simp_all add: w1)
      have ne: "path \<noteq> []" using st Inr by (auto simp: os_Stat_def)
      show ?thesis
      proof (cases r)
        case None
        with r' os_RemoveAll_success [of w path] ne
        have "\<forall>q. map_of (files w2) q = (if under (resolve w path) q then None else map_of (files w) q)"
          by simp
        with None st Inr True r r' h show ?thesis by (simp add: path_def [symmetric])
      next
        case (Some e)
        with st Inr True r r' h show ?thesis by (simp add: path_def [symmetric])
      qed
    next
      case False
      obtain r w2 where r: "os_Remove w1 path = (r, w2)"
        by (cases "os_Remove w1 path")
      have r': "fst (os_Remove w path) = r" "files w2 = files (snd (os_Remove w path))"
        using r os_Remove_called [of "OpStat path" w path] by (simp_all add: w1)
      show ?thesis
      proof (cases r)
        case None
        with r' os_Remove_success [of w path]
        have "map_of (files w2) = (map_of (files w))(resolve w path := None)"
          by simp
        with None st Inr False r r' h show ?thesis by (simp add: path_def [symmetric])
      next
        case (Some e)
        with st Inr False r r' h show ?thesis by (simp add: path_def [symmetric])
      qed
    qed
  qed
qed

theorem delete_outcomes_witness:
  "fst (delete_handler demo ''/srv/data'' ''/sub'') = Response StatusOK ''Deleted''
   \<and> map_of (files (snd (delete_handler demo ''/srv/data'' ''/sub''))) ''/srv/data/sub'' = None
   \<and> map_of (files (snd (delete_handler demo ''/srv/data'' ''/sub''))) ''/srv/data/sub/b.txt'' = None
   \<and> map_of (files (snd (delete_handler demo ''/srv/data'' ''/sub''))) ''/srv/data/a.txt''
        = Some (FileNode 0x124 ''hello'')"
proof -
  have g1: "\<not> (''/sub'' = ''/'' \<or> ''/sub'' = [] \<or> ''/sub'' = ''*'' \<or> ''/sub'' = ''/*'')"
    by simp
  have g2: "fst (Abs demo ''/srv/data'') \<noteq> fst (Abs demo (Join [''/srv/data'', ''/sub'']))"
    by code_simp
  have st: "fst (os_Stat demo (Join [''/srv/data'', ''/sub''])) = Inr (DirNode 0x1ED)"
    by code_simp
  have rm: "fst (os_RemoveAll demo (Join [''/srv/data'', ''/sub''])) = None"
    by code_simp
  have rs: "resolve demo (Join [''/srv/data'', ''/sub'']) = ''/srv/data/sub''"
    by code_simp
  have u: "under ''/srv/data/sub'' ''/srv/data/sub''" "under ''/srv/data/sub'' ''/srv/data/sub/b.txt''"
     "\<not> under ''/srv/data/sub'' ''/srv/data/a.txt''"
    by code_simp+
  have a: "map_of (files demo) ''/srv/data/a.txt'' = Some (FileNode 0x124 ''hello'')"
    by code_simp
  from delete_outcomes [OF g1 g2] show ?thesis
    by (simp add: st rm rs IsDir_def u a)
qed

section \<open>The upload handler: one file part\<close>

lemma upload_files_abort:
  "fst (upload_file w dirPrefix dirName key file) \<noteq> None
     \<Longrightarrow> upload_files w dirPrefix dirName key (file # rest)
           = upload_file w dirPrefix dirName key file"
  by (cases "upload_file w dirPrefix dirName key file") (auto split: option.splits)

lemma upload_fields_abort:
  "fst (upload_file w dirPrefix dirName key file) \<noteq> None
     \<Longrightarrow> upload_fields w dirPrefix dirName ((key, file # rest) # others)
           = upload_file w dirPrefix dirName key file"
  by (cases "upload_file w dirPrefix dirName key file") (auto split: option.splits)

lemma upload_file_exists:
  assumes "open_ok file"
      and "fst (os_Stat w (Join [dirPrefix, dirName, Filename file])) = Inr n"
  shows "fst (upload_file w dirPrefix dirName key file)
           = Some (http_Error ''File already exists'' StatusConflict)"
    and "files (snd (upload_file w dirPrefix dirName key file)) = files w"
  using assms
  by (auto simp: upload_file_def Let_def os_Stat_def split: if_splits option.splits sum.splits prod.splits)

lemma upload_file_create_fails:
  assumes "open_ok file"
      and "isl (fst (os_Stat w (Join [dirPrefix, dirName, Filename file])))"
      and "fst (os_OpenFile w (Join [dirPrefix, dirName, Filename file])
                  (O_WRONLY OR O_CREATE OR O_EXCL) perm_0444) = Some e"
  shows "fst (upload_file w dirPrefix dirName key file)
           = Some (http_Error ''Unable to create file'' StatusInternalServerError)"
    and "files (snd (upload_file w dirPrefix dirName key file)) = files w"
  using assms
  by (auto simp: upload_file_def Let_def os_Stat_def os_OpenFile_def split: if_splits option.splits sum.splits prod.splits node.splits)


lemma excl_create_flags:
  "(O_WRONLY OR O_CREATE OR O_EXCL) AND O_CREATE \<noteq> 0"
  "(O_WRONLY OR O_CREATE OR O_EXCL) AND O_EXCL \<noteq> 0"
  by (simp_all add: O_WRONLY_def O_CREATE_def O_EXCL_def)

lemma os_OpenFile_excl_existing:
  "p \<noteq> [] \<Longrightarrow> map_of (files w) (resolve w p) = Some n
     \<Longrightarrow> fst (os_OpenFile w p (O_WRONLY OR O_CREATE OR O_EXCL) perm) \<noteq> None"
  by (simp add: os_OpenFile_def Let_def excl_create_flags)

lemma os_OpenFile_excl_created:
  assumes "fst (os_OpenFile w p (O_WRONLY OR O_CREATE OR O_EXCL) perm) = None"
  shows "p \<noteq> []"
    and "map_of (files w) (resolve w p) = None"
    and "files (snd (os_OpenFile w p (O_WRONLY OR O_CREATE OR O_EXCL) perm))
           = AList.update (resolve w p) (FileNode (perm AND NOT (umask w)) []) (files w)"
  using assms
  by (auto simp: os_OpenFile_def Let_def excl_create_flags
           split: if_splits option.splits node.splits)

lemma os_OpenFile_world [simp]:
  "cwd (snd (os_OpenFile w p flag perm)) = cwd w"
  "fault (snd (os_OpenFile w p flag perm)) = fault w"
  "copy_cut (snd (os_OpenFile w p flag perm)) = copy_cut w"
  "umask (snd (os_OpenFile w p flag perm)) = umask w"
  by (simp_all add: os_OpenFile_def Let_def split: option.splits node.splits)

lemma os_OpenFile_cong:
  "files w' = files w \<Longrightarrow> cwd w' = cwd w \<Longrightarrow> fault w' = fault w \<Longrightarrow> umask w' = umask w
     \<Longrightarrow> fst (os_OpenFile w' p flag perm) = fst (os_OpenFile w p flag perm)
         \<and> files (snd (os_OpenFile w' p flag perm)) = files (snd (os_OpenFile w p flag perm))"
  by (simp add: os_OpenFile_def Let_def resolve_def split: option.splits node.splits)

lemma io_Copy_result_cong:
  "copy_cut w' = copy_cut w
     \<Longrightarrow> fst (io_Copy w' p src) = fst (io_Copy w p src)
         \<and> fst (snd (io_Copy w' p src)) = fst (snd (io_Copy w p src))"
  by (simp add: io_Copy_def Let_def split: option.splits prod.splits)

lemma io_Copy_files:
  "map_of (files w) (resolve w p) = Some (FileNode m c)
     \<Longrightarrow> files (snd (snd (io_Copy w p src)))
           = AList.update (resolve w p)
               (FileNode m (take (nat (fst (io_Copy w p src))) src)) (files w)"
  by (simp add: io_Copy_def Let_def split: option.splits prod.splits)

lemma sum_case_isl: "(case s of Inl _ \<Rightarrow> b | Inr _ \<Rightarrow> a) = (if isl s then b else a)"
  by (cases s) simp_all

lemma upload_file_unfold:
  "upload_file w dirPrefix dirName key file =
     (let w0 = log_Printf (LogFile key (Filename file) (Size file)) w in
      if \<not> open_ok file then (None, log_Printf LogOpenError w0)
      else
        let filePath = Join [dirPrefix, dirName, Filename file];
            w1 = log_Printf (LogChecking filePath) w0;
            w2 = snd (os_Stat w1 filePath)
        in if \<not> isl (fst (os_Stat w1 filePath)) then
             (Some (http_Error ''File already exists'' StatusConflict),
              log_Printf (LogExists filePath) w2)
           else
             let opened = os_OpenFile w2 filePath (O_WRONLY OR O_CREATE OR O_EXCL) perm_0444;
                 w3 = snd opened
             in case fst opened of
                  Some err \<Rightarrow>
                    (Some (http_Error ''Unable to create file'' StatusInternalServerError),
                     log_Printf (LogCreateError err) w3)
                | None \<Rightarrow>
                    let copy = io_Copy w3 filePath (src_bytes file);
                        w4 = snd (snd copy)
                    in if fst (snd copy) \<or> fst copy \<noteq> Size file then
                         let removed = os_Remove (log_Printf LogCopyError w4) filePath;
                             w5 = snd removed
                         in (Some (http_Error ''Error copying file'' StatusInternalServerError),
                             (case fst removed of
                                Some e \<Rightarrow> log_Printf (LogRemoveError e) w5
                              | None \<Rightarrow> w5))
                       else (None, log_Printf (LogSaved filePath) w4))"
  by (simp add: upload_file_def Let_def split_beta sum_case_isl cong: option.case_cong)

lemma upload_file_past_create:
  fixes w dirPrefix dirName key part
  defines "filePath \<equiv> Join [dirPrefix, dirName, Filename part]"
  defines "n \<equiv> fst (io_Copy w filePath (src_bytes part))"
  defines "err \<equiv> fst (snd (io_Copy w filePath (src_bytes part)))"
  assumes opened: "open_ok part"
      and absent: "isl (fst (os_Stat w filePath))"
      and created: "fst (os_OpenFile w filePath (O_WRONLY OR O_CREATE OR O_EXCL) perm_0444) = None"
  shows "\<exists>w4. upload_file w dirPrefix dirName key part =
               (if err \<or> n \<noteq> Size part then
                  (Some (http_Error ''Error copying file'' StatusInternalServerError),
                   (case fst (os_Remove (log_Printf LogCopyError w4) filePath) of
                      Some e \<Rightarrow>
                        log_Printf (LogRemoveError e)
                          (snd (os_Remove (log_Printf LogCopyError w4) filePath))
                    | None \<Rightarrow> snd (os_Remove (log_Printf LogCopyError w4) filePath)))
                else (None, log_Printf (LogSaved filePath) w4))
             \<and> files w4 = AList.update (resolve w filePath)
                   (FileNode (perm_0444 AND NOT (umask w)) (take (nat n) (src_bytes part)))
                   (AList.update (resolve w filePath)
                      (FileNode (perm_0444 AND NOT (umask w)) []) (files w))
             \<and> cwd w4 = cwd w \<and> fault w4 = fault w \<and> umask w4 = umask w
             \<and> copy_cut w4 = copy_cut w
             \<and> calls w4 = calls w @ [OpStat filePath, OpOpenFile filePath, OpCopy filePath]"
proof -
  let ?flags = "O_WRONLY OR O_CREATE OR O_EXCL"
  define w1 where "w1 = log_Printf (LogChecking filePath)
                          (log_Printf (LogFile key (Filename part) (Size part)) w)"
  define w2 where "w2 = snd (os_Stat w1 filePath)"
  define w3 where "w3 = snd (os_OpenFile w2 filePath ?flags perm_0444)"
  define w4 where "w4 = snd (snd (io_Copy w3 filePath (src_bytes part)))"
  define q where "q = resolve w filePath"
  define m where "m = perm_0444 AND NOT (umask w)"
  have w2: "w2 = called (OpStat filePath) w1"
    by (simp add: w2_def os_Stat_def)
  have st: "isl (fst (os_Stat w1 filePath))"
    using absent by (simp add: w1_def)
  have same2: "files w2 = files w" "cwd w2 = cwd w" "fault w2 = fault w" "umask w2 = umask w"
      "copy_cut w2 = copy_cut w" "calls w2 = calls w @ [OpStat filePath]"
    by (simp_all add: w2 w1_def)
  have cr: "fst (os_OpenFile w2 filePath ?flags perm_0444) = None"
    using os_OpenFile_cong [OF same2(1-4), of filePath ?flags perm_0444] created by simp
  note c = os_OpenFile_excl_created [OF cr]
  have q2: "resolve w2 filePath = q" "resolve w3 filePath = q"
    by (simp_all add: q_def w3_def resolve_def same2)
  have f3: "files w3 = AList.update q (FileNode m []) (files w)"
    using c(3) by (simp add: w3_def q2 same2 m_def)
  have same3: "cwd w3 = cwd w" "fault w3 = fault w" "copy_cut w3 = copy_cut w"
      "umask w3 = umask w"
    by (simp_all add: w3_def same2)
  have calls3: "calls w3 = calls w @ [OpStat filePath, OpOpenFile filePath]"
    using cr c(1)
    by (auto simp: w3_def os_OpenFile_def Let_def same2 split: if_splits option.splits node.splits)
  have at3: "map_of (files w3) (resolve w3 filePath) = Some (FileNode m [])"
    by (simp add: f3 q2 update_conv')
  have cp: "fst (snd (io_Copy w3 filePath (src_bytes part))) = err"
      "fst (io_Copy w3 filePath (src_bytes part)) = n"
    using io_Copy_result_cong [OF same3(3), of filePath "src_bytes part"]
    by (simp_all add: n_def err_def)
  have f4: "files w4 = AList.update q (FileNode m (take (nat n) (src_bytes part))) (files w3)"
    using io_Copy_files [OF at3, of "src_bytes part"] by (simp add: w4_def q2 cp)
  have same4: "cwd w4 = cwd w" "fault w4 = fault w" "umask w4 = umask w"
      "copy_cut w4 = copy_cut w" "calls w4 = calls w3 @ [OpCopy filePath]"
    by (simp_all add: w4_def io_Copy_def Let_def same3 split: prod.splits option.splits)
  have body: "upload_file w dirPrefix dirName key part =
     (if err \<or> n \<noteq> Size part then
        (Some (http_Error ''Error copying file'' StatusInternalServerError),
         (case fst (os_Remove (log_Printf LogCopyError w4) filePath) of
            Some e \<Rightarrow>
              log_Printf (LogRemoveError e)
                (snd (os_Remove (log_Printf LogCopyError w4) filePath))
          | None \<Rightarrow> snd (os_Remove (log_Printf LogCopyError w4) filePath)))
      else (None, log_Printf (LogSaved filePath) w4))"
    using opened st absent cr
    by (simp add: upload_file_unfold Let_def filePath_def [symmetric] w1_def [symmetric]
          w2_def [symmetric] w3_def [symmetric] cp w4_def [symmetric])
  show ?thesis
    apply (rule exI [of _ w4])
    using body f4 f3 same4 calls3 by (simp add: q_def m_def)
qed

lemma upload_file_saved:
  fixes w dirPrefix dirName key part
  defines "filePath \<equiv> Join [dirPrefix, dirName, Filename part]"
  defines "w' \<equiv> snd (upload_file w dirPrefix dirName key part)"
  assumes opened: "open_ok part"
      and saved: "fst (upload_file w dirPrefix dirName key part) = None"
  shows "filePath \<noteq> []"
    and "map_of (files w) (resolve w filePath) = None"
    and "map_of (files w') = (map_of (files w))(resolve w filePath \<mapsto>
           FileNode (perm_0444 AND NOT (umask w)) (take (nat (Size part)) (src_bytes part)))"
    and "cwd w' = cwd w" and "fault w' = fault w" and "umask w' = umask w"
proof -
  let ?flags = "O_WRONLY OR O_CREATE OR O_EXCL"
  have absent: "isl (fst (os_Stat w filePath))"
    using opened saved
    by (auto simp: upload_file_unfold Let_def filePath_def split: if_splits)
  have created: "fst (os_OpenFile w filePath ?flags perm_0444) = None"
  proof (cases "fst (os_OpenFile w filePath ?flags perm_0444)")
    case (Some e)
    from upload_file_create_fails(1) [OF opened absent [unfolded filePath_def] Some [unfolded filePath_def]]
    show ?thesis using saved by simp
  qed simp
  note c = os_OpenFile_excl_created [OF created]
  from upload_file_past_create [OF opened absent [unfolded filePath_def] created [unfolded filePath_def], of key]
  obtain w4 where w4: "upload_file w dirPrefix dirName key part =
               (if fst (snd (io_Copy w filePath (src_bytes part)))
                   \<or> fst (io_Copy w filePath (src_bytes part)) \<noteq> Size part then
                  (Some (http_Error ''Error copying file'' StatusInternalServerError),
                   (case fst (os_Remove (log_Printf LogCopyError w4) filePath) of
                      Some e \<Rightarrow>
                        log_Printf (LogRemoveError e)
                          (snd (os_Remove (log_Printf LogCopyError w4) filePath))
                    | None \<Rightarrow> snd (os_Remove (log_Printf LogCopyError w4) filePath)))
                else (None, log_Printf (LogSaved filePath) w4))"
     and f4: "files w4 = AList.update (resolve w filePath)
                   (FileNode (perm_0444 AND NOT (umask w))
                      (take (nat (fst (io_Copy w filePath (src_bytes part)))) (src_bytes part)))
                   (AList.update (resolve w filePath)
                      (FileNode (perm_0444 AND NOT (umask w)) []) (files w))"
     and same: "cwd w4 = cwd w" "fault w4 = fault w" "umask w4 = umask w"
    unfolding filePath_def by blast
  have ok: "\<not> (fst (snd (io_Copy w filePath (src_bytes part)))
                \<or> fst (io_Copy w filePath (src_bytes part)) \<noteq> Size part)"
    using saved w4 by (auto split: if_splits)
  then have w': "w' = log_Printf (LogSaved filePath) w4"
    using w4 by (simp add: w'_def)
  show "filePath \<noteq> []" by (rule c(1))
  show "map_of (files w) (resolve w filePath) = None" by (rule c(2))
  show "map_of (files w') = (map_of (files w))(resolve w filePath \<mapsto>
           FileNode (perm_0444 AND NOT (umask w)) (take (nat (Size part)) (src_bytes part)))"
    using ok by (simp add: w' f4 update_conv')
  show "cwd w' = cwd w" "fault w' = fault w" "umask w' = umask w"
    by (simp_all add: w' same)
qed

lemma no_write_or_execute_bits: "(perm_0444 AND NOT u) AND 0xDB = 0"
proof -
  have "(perm_0444 AND NOT u) AND 0xDB = (perm_0444 AND 0xDB) AND NOT u"
    by (simp add: ac_simps)
  also have "perm_0444 AND 0xDB = 0"
    by (simp add: perm_0444_def)
  finally show ?thesis by simp
qed

text \<open>
  C2. For a part that was opened, whose destination did not exist and was created: when
  \<open>io.Copy\<close> returns an error, or the count it returns differs from the declared size,
  the handler answers 500 "Error copying file" and returns at once (the parts and fields
  after it are not looked at), and its last call is \<open>os.Remove\<close> of the destination.
  When that removal fails it is logged; when it succeeds, the file table is what it was
  before the part was processed: nothing is left at the destination, and a later
  \<open>os.Stat\<close> of it fails.
\<close>

theorem upload_copy_failure:
  fixes w dirPrefix dirName key part
  defines "filePath \<equiv> Join [dirPrefix, dirName, Filename part]"
  defines "w' \<equiv> snd (upload_file w dirPrefix dirName key part)"
  assumes opened: "open_ok part"
      and absent: "isl (fst (os_Stat w filePath))"
      and created: "fst (os_OpenFile w filePath (O_WRONLY OR O_CREATE OR O_EXCL) perm_0444) = None"
      and failed: "fst (snd (io_Copy w filePath (src_bytes part)))
                   \<or> fst (io_Copy w filePath (src_bytes part)) \<noteq> Size part"
  shows "fst (upload_file w dirPrefix dirName key part)
           = Some (http_Error ''Error copying file'' StatusInternalServerError)
         \<and> upload_fields w dirPrefix dirName ((key, part # rest) # others)
             = upload_file w dirPrefix dirName key part
         \<and> last (calls w') = OpRemove filePath
         \<and> (if fault w (OpRemove filePath) then last (logged w') = LogRemoveError EIO
            else map_of (files w') = map_of (files w)
                 \<and> map_of (files w') (resolve w filePath) = None
                 \<and> isl (fst (os_Stat w' filePath)))"
proof -
  let ?flags = "O_WRONLY OR O_CREATE OR O_EXCL"
  define q where "q = resolve w filePath"
  have none: "map_of (files w) q = None"
    using os_OpenFile_excl_created(2) [OF created] by (simp add: q_def)
  have ne: "filePath \<noteq> []"
    by (rule os_OpenFile_excl_created(1) [OF created])
  from upload_file_past_create [OF opened absent [unfolded filePath_def]
      created [unfolded filePath_def], of key] failed
  obtain w4 content where
        body: "upload_file w dirPrefix dirName key part =
                 (Some (http_Error ''Error copying file'' StatusInternalServerError),
                  (case fst (os_Remove (log_Printf LogCopyError w4) filePath) of
                     Some e \<Rightarrow>
                       log_Printf (LogRemoveError e)
                         (snd (os_Remove (log_Printf LogCopyError w4) filePath))
                   | None \<Rightarrow> snd (os_Remove (log_Printf LogCopyError w4) filePath)))"
    and f4: "files w4 = AList.update q (FileNode (perm_0444 AND NOT (umask w)) content)
                          (AList.update q (FileNode (perm_0444 AND NOT (umask w)) []) (files w))"
    and same4: "cwd w4 = cwd w" "fault w4 = fault w"
    unfolding filePath_def q_def by auto
  have at4: "map_of (files w4) q = Some (FileNode (perm_0444 AND NOT (umask w)) content)"
    by (simp add: f4 update_conv')
  have leaf: "\<not> IsDir (FileNode (perm_0444 AND NOT (umask w)) content)"
    by (simp add: IsDir_def)
  have rm: "os_Remove (log_Printf LogCopyError w4) filePath =
     (if fault w (OpRemove filePath)
      then (Some EIO, called (OpRemove filePath) (log_Printf LogCopyError w4))
      else (None, (called (OpRemove filePath) (log_Printf LogCopyError w4))
                    \<lparr>files := AList.delete q (files w4)\<rparr>))"
  proof -
    have "resolve (log_Printf LogCopyError w4) filePath = q"
      by (simp add: q_def resolve_cong [OF same4(1)])
    with ne at4 leaf show ?thesis
      by (simp add: os_Remove_def Let_def same4)
  qed
  have resp: "fst (upload_file w dirPrefix dirName key part) \<noteq> None"
    by (simp add: body)
  have gone: "\<not> fault w (OpRemove filePath) \<Longrightarrow> map_of (files w') = map_of (files w)"
    using none by (auto simp: w'_def body rm delete_conv' f4 update_conv' fun_eq_iff)
  show ?thesis
  proof (cases "fault w (OpRemove filePath)")
    case True
    then show ?thesis
      using upload_fields_abort [OF resp]
      by (simp add: w'_def body rm)
  next
    case False
    have "cwd w' = cwd w" "calls w' = calls w4 @ [OpRemove filePath]"
      using False by (simp_all add: w'_def body rm same4)
    moreover have "isl (fst (os_Stat w' filePath))"
      using gone [OF False] none ne resolve_cong [OF calculation(1), of filePath]
      by (simp add: os_Stat_def q_def)
    ultimately show ?thesis
      using False upload_fields_abort [OF resp] gone [OF False] none
      by (simp add: body q_def)
  qed
qed

theorem upload_copy_failure_witness:
  "fst (upload_file demo ''/srv/data'' ''sub'' ''f'' short_part)
     = Some (http_Error ''Error copying file'' StatusInternalServerError)
   \<and> last (calls (snd (upload_file demo ''/srv/data'' ''sub'' ''f'' short_part)))
       = OpRemove ''/srv/data/sub/x.txt''
   \<and> map_of (files (snd (upload_file demo ''/srv/data'' ''sub'' ''f'' short_part)))
         ''/srv/data/sub/x.txt'' = None"
proof -
  have p: "Join [''/srv/data'', ''sub'', Filename short_part] = ''/srv/data/sub/x.txt''"
    by code_simp
  have r: "resolve demo ''/srv/data/sub/x.txt'' = ''/srv/data/sub/x.txt''"
    by code_simp
  have h1: "open_ok short_part"
    by (simp add: short_part_def)
  have h2: "isl (fst (os_Stat demo (Join [''/srv/data'', ''sub'', Filename short_part])))"
    by code_simp
  have h3: "fst (os_OpenFile demo (Join [''/srv/data'', ''sub'', Filename short_part])
                   (O_WRONLY OR O_CREATE OR O_EXCL) perm_0444) = None"
    by code_simp
  have h4: "fst (snd (io_Copy demo (Join [''/srv/data'', ''sub'', Filename short_part])
                        (src_bytes short_part)))
            \<or> fst (io_Copy demo (Join [''/srv/data'', ''sub'', Filename short_part])
                      (src_bytes short_part)) \<noteq> Size short_part"
    by code_simp
  have nf: "\<not> fault demo (OpRemove ''/srv/data/sub/x.txt'')"
    by (simp add: demo_def)
  have before: "map_of (files demo) ''/srv/data/sub/x.txt'' = None"
    by code_simp
  from upload_copy_failure [OF h1 h2 h3 h4, of "''f''" "[]" "[]"] nf show ?thesis
    by (simp add: p r before)
qed

text \<open>
  C3. For a part that was opened and whose destination \<open>os.Stat\<close> finds, the handler
  answers 409 "File already exists" and returns at once, with the file table untouched.
  And once a part has been saved, a second part with the same file name, uploaded to the
  same directory, meets that answer: the table is left as the first upload made it,
  with the first upload's bytes at the destination.
\<close>

theorem upload_existing_conflict:
  fixes w dirPrefix dirName key part
  defines "filePath \<equiv> Join [dirPrefix, dirName, Filename part]"
  defines "w1 \<equiv> snd (upload_file w dirPrefix dirName key part)"
  shows "(open_ok part \<and> \<not> isl (fst (os_Stat w filePath)) \<longrightarrow>
            fst (upload_file w dirPrefix dirName key part)
              = Some (http_Error ''File already exists'' StatusConflict)
            \<and> files w1 = files w
            \<and> upload_fields w dirPrefix dirName ((key, part # rest) # others)
                = upload_file w dirPrefix dirName key part)
         \<and> (open_ok part \<and> fst (upload_file w dirPrefix dirName key part) = None
             \<and> open_ok again \<and> Filename again = Filename part
             \<and> \<not> fault w (OpStat filePath) \<longrightarrow>
            fst (upload_file w1 dirPrefix dirName key' again)
              = Some (http_Error ''File already exists'' StatusConflict)
            \<and> files (snd (upload_file w1 dirPrefix dirName key' again)) = files w1
            \<and> map_of (files w1) (resolve w filePath)
                = Some (FileNode (perm_0444 AND NOT (umask w))
                          (take (nat (Size part)) (src_bytes part))))"
proof (intro conjI impI)
  assume a: "open_ok part \<and> \<not> isl (fst (os_Stat w filePath))"
  then obtain n where n: "fst (os_Stat w filePath) = Inr n"
    by (cases "fst (os_Stat w filePath)") auto
  note e = upload_file_exists [OF conjunct1 [OF a] n [unfolded filePath_def], of key]
  show "fst (upload_file w dirPrefix dirName key part)
          = Some (http_Error ''File already exists'' StatusConflict)"
    by (rule e(1))
  show "files w1 = files w"
    unfolding w1_def by (rule e(2))
  show "upload_fields w dirPrefix dirName ((key, part # rest) # others)
          = upload_file w dirPrefix dirName key part"
    by (rule upload_fields_abort) (simp add: e(1))
next
  assume a: "open_ok part \<and> fst (upload_file w dirPrefix dirName key part) = None
             \<and> open_ok again \<and> Filename again = Filename part
             \<and> \<not> fault w (OpStat filePath)"
  then have opened: "open_ok part" and saved: "fst (upload_file w dirPrefix dirName key part) = None"
    and again: "open_ok again" and same: "Filename again = Filename part"
    and nofault: "\<not> fault w (OpStat filePath)"
    by simp_all
  note s = upload_file_saved [OF opened saved, folded filePath_def w1_def]
  have at: "map_of (files w1) (resolve w filePath)
              = Some (FileNode (perm_0444 AND NOT (umask w))
                        (take (nat (Size part)) (src_bytes part)))"
    by (simp add: s(3))
  have "resolve w1 filePath = resolve w filePath"
    by (rule resolve_cong) (rule s(4))
  with at s(1) nofault
  have st: "fst (os_Stat w1 (Join [dirPrefix, dirName, Filename again]))
              = Inr (FileNode (perm_0444 AND NOT (umask w))
                       (take (nat (Size part)) (src_bytes part)))"
    by (simp add: os_Stat_def same filePath_def [symmetric] s(5))
  note e = upload_file_exists [OF again st, of key']
  show "fst (upload_file w1 dirPrefix dirName key' again)
          = Some (http_Error ''File already exists'' StatusConflict)"
    by (rule e(1))
  show "files (snd (upload_file w1 dirPrefix dirName key' again)) = files w1"
    by (rule e(2))
  show "map_of (files w1) (resolve w filePath)
          = Some (FileNode (perm_0444 AND NOT (umask w))
                    (take (nat (Size part)) (src_bytes part)))"
    by (rule at)
qed

theorem upload_existing_conflict_witness:
  "fst (upload_file demo ''/srv/data'' [] ''f'' taken_part)
     = Some (http_Error ''File already exists'' StatusConflict)
   \<and> files (snd (upload_file demo ''/srv/data'' [] ''f'' taken_part)) = files demo
   \<and> fst (upload_file demo ''/srv/data'' ''sub'' ''f'' whole_part) = None
   \<and> fst (upload_file (snd (upload_file demo ''/srv/data'' ''sub'' ''f'' whole_part))
             ''/srv/data'' ''sub'' ''g'' whole_part)
       = Some (http_Error ''File already exists'' StatusConflict)
   \<and> map_of (files (snd (upload_file demo ''/srv/data'' ''sub'' ''f'' whole_part)))
         ''/srv/data/sub/x.txt'' = Some (FileNode 0x124 ''abc'')"
proof -
  have a1: "open_ok taken_part
            \<and> \<not> isl (fst (os_Stat demo (Join [''/srv/data'', [], Filename taken_part])))"
    by code_simp
  have b1: "open_ok whole_part
            \<and> fst (upload_file demo ''/srv/data'' ''sub'' ''f'' whole_part) = None
            \<and> open_ok whole_part \<and> Filename whole_part = Filename whole_part
            \<and> \<not> fault demo (OpStat (Join [''/srv/data'', ''sub'', Filename whole_part]))"
    by code_simp
  have r: "resolve demo (Join [''/srv/data'', ''sub'', Filename whole_part])
             = ''/srv/data/sub/x.txt''"
    by code_simp
  have m: "perm_0444 AND NOT (umask demo) = 0x124" "take (nat (Size whole_part)) (src_bytes whole_part) = ''abc''"
    by code_simp+
  from a1 b1
    upload_existing_conflict [of taken_part demo "''/srv/data''" "[]" "''f''"]
    upload_existing_conflict [of whole_part demo "''/srv/data''" "''sub''" "''f''" _ _ whole_part "''g''"]
  show ?thesis
    by (simp add: r m)
qed

text \<open>
  C5. The destination is opened with \<open>O_WRONLY|O_CREATE|O_EXCL\<close> and permission
  \<open>0444\<close>. A destination that exists is never written, whether or not \<open>os.Stat\<close> saw
  it: the answer is 409 or 500 "Unable to create file" and the file table is unchanged.
  A failed creation is answered 500 "Unable to create file" and ends the request. A saved
  part sits at a path that did not exist before, with the bits of \<open>0444\<close> the umask
  leaves, none of which is a write or execute bit (\<open>0333\<close>, that is \<open>0xDB\<close>).
\<close>

theorem upload_exclusive_create:
  fixes w dirPrefix dirName key part
  defines "filePath \<equiv> Join [dirPrefix, dirName, Filename part]"
  defines "w' \<equiv> snd (upload_file w dirPrefix dirName key part)"
  assumes opened: "open_ok part"
  shows "(map_of (files w) (resolve w filePath) \<noteq> None \<longrightarrow>
            (fst (upload_file w dirPrefix dirName key part)
               = Some (http_Error ''File already exists'' StatusConflict)
             \<or> fst (upload_file w dirPrefix dirName key part)
                 = Some (http_Error ''Unable to create file'' StatusInternalServerError))
            \<and> files w' = files w)
         \<and> (isl (fst (os_Stat w filePath))
             \<and> fst (os_OpenFile w filePath (O_WRONLY OR O_CREATE OR O_EXCL) perm_0444) \<noteq> None
             \<longrightarrow>
            fst (upload_file w dirPrefix dirName key part)
              = Some (http_Error ''Unable to create file'' StatusInternalServerError)
            \<and> files w' = files w
            \<and> upload_fields w dirPrefix dirName ((key, part # rest) # others)
                = upload_file w dirPrefix dirName key part)
         \<and> (fst (upload_file w dirPrefix dirName key part) = None \<longrightarrow>
            map_of (files w) (resolve w filePath) = None
            \<and> map_of (files w') (resolve w filePath)
                = Some (FileNode (perm_0444 AND NOT (umask w))
                          (take (nat (Size part)) (src_bytes part))))
         \<and> (perm_0444 AND NOT (umask w)) AND 0xDB = 0
         \<and> perm_0444 = 4 * 64 + 4 * 8 + 4"
proof -
  let ?flags = "O_WRONLY OR O_CREATE OR O_EXCL"
  have fails: "fst (upload_file w dirPrefix dirName key part)
                 = Some (http_Error ''Unable to create file'' StatusInternalServerError)
               \<and> files w' = files w
               \<and> upload_fields w dirPrefix dirName ((key, part # rest) # others)
                   = upload_file w dirPrefix dirName key part"
    if absent: "isl (fst (os_Stat w filePath))"
      and nocreate: "fst (os_OpenFile w filePath ?flags perm_0444) \<noteq> None"
  proof -
    from nocreate obtain e where e: "fst (os_OpenFile w filePath ?flags perm_0444) = Some e"
      by auto
    note f = upload_file_create_fails [OF opened absent [unfolded filePath_def]
        e [unfolded filePath_def], of key]
    show ?thesis
      using f upload_fields_abort [of w dirPrefix dirName key part rest others]
      by (simp add: w'_def)
  qed
  have existing: "(fst (upload_file w dirPrefix dirName key part)
               = Some (http_Error ''File already exists'' StatusConflict)
             \<or> fst (upload_file w dirPrefix dirName key part)
                 = Some (http_Error ''Unable to create file'' StatusInternalServerError))
            \<and> files w' = files w"
    if there: "map_of (files w) (resolve w filePath) \<noteq> None"
  proof (cases "fst (os_Stat w filePath)")
    case (Inr n)
    from upload_file_exists [OF opened Inr [unfolded filePath_def], of key]
    show ?thesis by (simp add: w'_def)
  next
    case (Inl e)
    have "fst (os_OpenFile w filePath ?flags perm_0444) \<noteq> None"
    proof
      assume "fst (os_OpenFile w filePath ?flags perm_0444) = None"
      from os_OpenFile_excl_created(2) [OF this] there show False by simp
    qed
    with fails Inl show ?thesis by simp
  qed
  have saved: "map_of (files w) (resolve w filePath) = None
            \<and> map_of (files w') (resolve w filePath)
                = Some (FileNode (perm_0444 AND NOT (umask w))
                          (take (nat (Size part)) (src_bytes part)))"
    if "fst (upload_file w dirPrefix dirName key part) = None"
    using upload_file_saved(2,3) [OF opened that] by (simp add: filePath_def w'_def)
  have octal: "perm_0444 = 4 * 64 + 4 * 8 + 4"
    by (simp add: perm_0444_def)
  from fails existing saved octal no_write_or_execute_bits [of "umask w"]
  show ?thesis by blast
qed

theorem upload_exclusive_create_witness:
  "fst (upload_file demo ''/srv/data'' [] ''f'' taken_part)
     = Some (http_Error ''File already exists'' StatusConflict)
   \<and> fst (upload_file demo ''/srv/data'' ''a.txt'' ''f'' whole_part)
       = Some (http_Error ''Unable to create file'' StatusInternalServerError)
   \<and> map_of (files (snd (upload_file demo ''/srv/data'' ''sub'' ''f'' whole_part)))
         ''/srv/data/sub/x.txt'' = Some (FileNode 0x124 ''abc'')
   \<and> (0x124 :: 32 word) AND 0xDB = 0"
proof -
  have o: "open_ok taken_part" "open_ok whole_part"
    by (simp_all add: taken_part_def whole_part_def)
  have there: "map_of (files demo) (resolve demo (Join [''/srv/data'', [], Filename taken_part]))
                 \<noteq> None"
    by code_simp
  have seen: "fst (upload_file demo ''/srv/data'' [] ''f'' taken_part)
                \<noteq> Some (http_Error ''Unable to create file'' StatusInternalServerError)"
    by code_simp
  have nocreate: "isl (fst (os_Stat demo (Join [''/srv/data'', ''a.txt'', Filename whole_part])))
     \<and> fst (os_OpenFile demo (Join [''/srv/data'', ''a.txt'', Filename whole_part])
               (O_WRONLY OR O_CREATE OR O_EXCL) perm_0444) \<noteq> None"
    by code_simp
  have saved: "fst (upload_file demo ''/srv/data'' ''sub'' ''f'' whole_part) = None"
    by code_simp
  have r: "resolve demo (Join [''/srv/data'', ''sub'', Filename whole_part])
             = ''/srv/data/sub/x.txt''"
    by code_simp
  have m: "perm_0444 AND NOT (umask demo) = 0x124"
      "take (nat (Size whole_part)) (src_bytes whole_part) = ''abc''"
    by code_simp+
  from there seen nocreate saved
    upload_exclusive_create [OF o(1), of demo "''/srv/data''" "[]" "''f''"]
    upload_exclusive_create [OF o(2), of demo "''/srv/data''" "''a.txt''" "''f''"]
    upload_exclusive_create [OF o(2), of demo "''/srv/data''" "''sub''" "''f''"]
  show ?thesis
    by (simp add: r m)
qed

section \<open>The upload handler: the order of the parts\<close>

lemma os_calls_keep_log [simp]:
  "logged (snd (os_Stat w p)) = logged w"
  "logged (snd (os_OpenFile w p flag perm)) = logged w"
  "logged (snd (snd (io_Copy w p src))) = logged w"
  "logged (snd (os_Remove w p)) = logged w"
  "logged (snd (os_Mkdir w p perm)) = logged w"
  by (simp_all add: os_Stat_def os_OpenFile_def io_Copy_def os_Remove_def os_Mkdir_def Let_def
        split: option.splits node.splits prod.splits)

lemma parts_started_log_Printf:
  "parts_started (log_Printf e w) = parts_started w @ (if is_LogFile e then [e] else [])"
  by (simp add: parts_started_def)

lemma parts_started_cong: "logged w' = logged w \<Longrightarrow> parts_started w' = parts_started w"
  by (simp add: parts_started_def)

lemma upload_file_started:
  "parts_started (snd (upload_file w dirPrefix dirName key file))
     = parts_started w @ [announce key file]"
  by (simp add: upload_file_unfold Let_def parts_started_def is_LogFile_def announce_def
        split: option.splits)

lemma upload_file_answers:
  "fst (upload_file w dirPrefix dirName key file) = Some r
     \<Longrightarrow> r = http_Error ''File already exists'' StatusConflict
         \<or> r = http_Error ''Unable to create file'' StatusInternalServerError
         \<or> r = http_Error ''Error copying file'' StatusInternalServerError"
  by (auto simp: upload_file_unfold Let_def split: if_splits option.splits)

lemma upload_files_started:
  "\<exists>seen rest. parts_started (snd (upload_files w dirPrefix dirName key fs))
                   = parts_started w @ seen
               \<and> map (announce key) fs = seen @ rest
               \<and> (fst (upload_files w dirPrefix dirName key fs) = None \<longrightarrow> rest = [])"
proof (induction fs arbitrary: w)
  case Nil
  show ?case by simp
next
  case (Cons f fs)
  obtain r w1 where u: "upload_file w dirPrefix dirName key f = (r, w1)"
    by (cases "upload_file w dirPrefix dirName key f")
  have s1: "parts_started w1 = parts_started w @ [announce key f]"
    using upload_file_started [of w dirPrefix dirName key f] by (simp add: u)
  show ?case
  proof (cases r)
    case (Some a)
    with u s1 show ?thesis by simp
  next
    case None
    from Cons.IH [of w1] obtain seen rest where
      "parts_started (snd (upload_files w1 dirPrefix dirName key fs)) = parts_started w1 @ seen"
      "map (announce key) fs = seen @ rest"
      "fst (upload_files w1 dirPrefix dirName key fs) = None \<longrightarrow> rest = []"
      by (elim exE conjE)
    with None u s1 show ?thesis
      by (intro exI [of _ "announce key f # seen"] exI [of _ rest]) simp
  qed
qed

lemma upload_fields_started:
  "\<exists>seen rest. parts_started (snd (upload_fields w dirPrefix dirName kfs))
                   = parts_started w @ seen
               \<and> form_order kfs = seen @ rest
               \<and> (fst (upload_fields w dirPrefix dirName kfs) = None \<longrightarrow> rest = [])"
proof (induction kfs arbitrary: w)
  case Nil
  show ?case by (simp add: form_order_def)
next
  case (Cons kf kfs)
  obtain key fs where kf: "kf = (key, fs)" by (cases kf)
  obtain r w1 where u: "upload_files w dirPrefix dirName key fs = (r, w1)"
    by (cases "upload_files w dirPrefix dirName key fs")
  from upload_files_started [of w dirPrefix dirName key fs] obtain seen1 rest1 where
    a: "parts_started w1 = parts_started w @ seen1" "map (announce key) fs = seen1 @ rest1"
       "r = None \<longrightarrow> rest1 = []"
    by (auto simp: u)
  have fo: "form_order (kf # kfs) = map (announce key) fs @ form_order kfs"
    by (simp add: form_order_def kf)
  show ?case
  proof (cases r)
    case (Some x)
    with u a kf fo show ?thesis
      by (intro exI [of _ seen1] exI [of _ "rest1 @ form_order kfs"]) simp
  next
    case None
    from Cons.IH [of w1] obtain seen rest where
      "parts_started (snd (upload_fields w1 dirPrefix dirName kfs)) = parts_started w1 @ seen"
      "form_order kfs = seen @ rest"
      "fst (upload_fields w1 dirPrefix dirName kfs) = None \<longrightarrow> rest = []"
      by (elim exE conjE)
    with None u a kf fo show ?thesis
      by (intro exI [of _ "seen1 @ seen"] exI [of _ rest]) simp
  qed
qed

lemma upload_files_answers:
  "fst (upload_files w dirPrefix dirName key fs) = Some r
     \<Longrightarrow> r \<noteq> Response StatusOK ''Form data received and printed''"
proof (induction fs arbitrary: w)
  case Nil
  then show ?case by simp
next
  case (Cons f fs)
  obtain x w1 where u: "upload_file w dirPrefix dirName key f = (x, w1)"
    by (cases "upload_file w dirPrefix dirName key f")
  show ?case
  proof (cases x)
    case None
    with Cons u show ?thesis by simp
  next
    case (Some a)
    with Cons.prems u have "r = a" by simp
    with upload_file_answers [of w dirPrefix dirName key f a] u Some
    show ?thesis by (auto simp: http_Error_def)
  qed
qed

lemma upload_fields_answers:
  "fst (upload_fields w dirPrefix dirName kfs) = Some r
     \<Longrightarrow> r \<noteq> Response StatusOK ''Form data received and printed''"
proof (induction kfs arbitrary: w)
  case Nil
  then show ?case by simp
next
  case (Cons kf kfs)
  obtain key fs where kf: "kf = (key, fs)" by (cases kf)
  obtain x w1 where u: "upload_files w dirPrefix dirName key fs = (x, w1)"
    by (cases "upload_files w dirPrefix dirName key fs")
  show ?case
  proof (cases x)
    case None
    with Cons u kf show ?thesis by simp
  next
    case (Some a)
    with Cons.prems u kf have "r = a" by simp
    with upload_files_answers [of w dirPrefix dirName key fs a] u Some
    show ?thesis by simp
  qed
qed

text \<open>
  C8, as amended. Whatever order \<open>ks\<close> the runtime ranges over the field map in, the
  parts the handler takes up are, in order, an initial stretch of: the fields in the
  order \<open>ks\<close>, each field's parts in list order; and the whole of it when the answer
  is 200 "Form data received and printed".
\<close>

theorem upload_order:
  "\<exists>seen rest.
      parts_started (snd (post_handler w dirPrefix (Some form) ks)) = parts_started w @ seen
      \<and> form_order (range_map (File form) ks) = seen @ rest
      \<and> (fst (post_handler w dirPrefix (Some form) ks)
            = Response StatusOK ''Form data received and printed'' \<longrightarrow> rest = [])"
proof -
  let ?all = "form_order (range_map (File form) ks)"
  have stop: ?thesis
    if "parts_started (snd (post_handler w dirPrefix (Some form) ks)) = parts_started w"
      and "fst (post_handler w dirPrefix (Some form) ks)
             \<noteq> Response StatusOK ''Form data received and printed''"
    using that by (intro exI [of _ "[]"] exI [of _ ?all]) simp
  show ?thesis
  proof (cases "map_of (Value form) ''name''")
    case None
    then show ?thesis
      by (intro stop) (simp_all add: post_handler_def http_Error_def)
  next
    case (Some names)
    show ?thesis
    proof (cases names)
      case Nil
      with Some show ?thesis
        by (intro stop) (simp_all add: post_handler_def http_Error_def)
    next
      case (Cons dirName more_names)
      obtain err w1 where mk: "os_Mkdir w (Join [dirPrefix, dirName]) perm_0755 = (err, w1)"
        by (cases "os_Mkdir w (Join [dirPrefix, dirName]) perm_0755")
      have l1: "logged w1 = logged w"
        using os_calls_keep_log(5) [of w "Join [dirPrefix, dirName]" perm_0755] by (simp add: mk)
      show ?thesis
      proof (cases "case err of None \<Rightarrow> False | Some e \<Rightarrow> \<not> os_IsExist e")
        case True
        with Some Cons mk l1 show ?thesis
          by (intro stop)
             (auto simp: post_handler_def http_Error_def parts_started_def is_LogFile_def
                   split: option.splits)
      next
        case False
        define w2 where "w2 = log_Printf (LogCreatedDir dirName) w1"
        have s2: "parts_started w2 = parts_started w"
          by (simp add: w2_def parts_started_def is_LogFile_def l1)
        obtain r w3 where up:
          "upload_fields w2 dirPrefix dirName (range_map (File form) ks) = (r, w3)"
          by (cases "upload_fields w2 dirPrefix dirName (range_map (File form) ks)")
        from upload_fields_started [of w2 dirPrefix dirName "range_map (File form) ks"]
        obtain seen rest where
          a: "parts_started w3 = parts_started w @ seen" "?all = seen @ rest"
             "r = None \<longrightarrow> rest = []"
          by (auto simp: up s2)
        have ph: "post_handler w dirPrefix (Some form) ks =
                    (case r of Some x \<Rightarrow> (x, w3)
                     | None \<Rightarrow> (Response StatusOK ''Form data received and printed'', w3))"
          using Some Cons mk False up
          by (simp add: post_handler_def w2_def split: option.splits)
        have "r \<noteq> None \<Longrightarrow> fst (post_handler w dirPrefix (Some form) ks)
                \<noteq> Response StatusOK ''Form data received and printed''"
          using upload_fields_answers [of w2 dirPrefix dirName "range_map (File form) ks"] up
          by (auto simp: ph)
        with a ph show ?thesis
          by (intro exI [of _ seen] exI [of _ rest]) (auto split: option.splits)
      qed
    qed
  qed
qed

theorem upload_order_witness:
  "parts_started (snd (post_handler demo ''/srv/data'' (Some two_fields) [''b'', ''a'']))
     = [LogFile ''b'' ''x.txt'' 3, LogFile ''a'' ''b.txt'' 1]
   \<and> form_order (range_map (File two_fields) [''b'', ''a''])
       = [LogFile ''b'' ''x.txt'' 3, LogFile ''a'' ''b.txt'' 1]"
proof -
  have all: "form_order (range_map (File two_fields) [''b'', ''a''])
               = [LogFile ''b'' ''x.txt'' 3, LogFile ''a'' ''b.txt'' 1]"
    by code_simp
  have none: "parts_started demo = []"
    by code_simp
  have two: "length (parts_started (snd (post_handler demo ''/srv/data'' (Some two_fields)
                                           [''b'', ''a'']))) = 2"
    by code_simp
  from upload_order [of demo "''/srv/data''" two_fields "[''b'', ''a'']"]
  obtain seen rest where
    s: "parts_started (snd (post_handler demo ''/srv/data'' (Some two_fields) [''b'', ''a'']))
          = seen"
       "[LogFile ''b'' ''x.txt'' 3, LogFile ''a'' ''b.txt'' 1] = seen @ rest"
    unfolding all none by auto
  have "length [LogFile ''b'' ''x.txt'' 3, LogFile ''a'' ''b.txt'' 1] = length (seen @ rest)"
    by (simp only: s(2))
  with two have "rest = []"
    unfolding s(1) by simp
  with s all show ?thesis by simp
qed

text \<open>
  C8, as stated, fails: the form \<open>two_fields\<close> has the two fields \<open>a\<close> and \<open>b\<close>, the
  runtime may range over them in either order, and the two runs take up the parts in
  different orders and leave different files behind.
\<close>

theorem upload_order_counterexample:
  "range_order (File two_fields) [''a'', ''b'']
   \<and> range_order (File two_fields) [''b'', ''a'']
   \<and> parts_started (snd (post_handler demo ''/srv/data'' (Some two_fields) [''a'', ''b'']))
       = [LogFile ''a'' ''b.txt'' 1]
   \<and> parts_started (snd (post_handler demo ''/srv/data'' (Some two_fields) [''b'', ''a'']))
       = [LogFile ''b'' ''x.txt'' 3, LogFile ''a'' ''b.txt'' 1]
   \<and> map_of (files (snd (post_handler demo ''/srv/data'' (Some two_fields) [''a'', ''b''])))
        ''/srv/data/sub/x.txt'' = None
   \<and> map_of (files (snd (post_handler demo ''/srv/data'' (Some two_fields) [''b'', ''a''])))
        ''/srv/data/sub/x.txt'' = Some (FileNode 0x124 ''abc'')"
  by code_simp

section \<open>The upload handler: the directory name\<close>

lemma upload_files_from_part:
  "fst (upload_files w dirPrefix dirName key fs) = Some r
     \<Longrightarrow> \<exists>w' f. fst (upload_file w' dirPrefix dirName key f) = Some r"
proof (induction fs arbitrary: w)
  case Nil
  then show ?case by simp
next
  case (Cons f fs)
  obtain x w1 where u: "upload_file w dirPrefix dirName key f = (x, w1)"
    by (cases "upload_file w dirPrefix dirName key f")
  show ?case
  proof (cases x)
    case None
    with Cons u show ?thesis by simp
  next
    case (Some a)
    with Cons.prems u have "fst (upload_file w dirPrefix dirName key f) = Some r" by simp
    then show ?thesis by blast
  qed
qed

lemma upload_fields_from_part:
  "fst (upload_fields w dirPrefix dirName kfs) = Some r
     \<Longrightarrow> \<exists>w' key f. fst (upload_file w' dirPrefix dirName key f) = Some r"
proof (induction kfs arbitrary: w)
  case Nil
  then show ?case by simp
next
  case (Cons kf kfs)
  obtain key fs where kf: "kf = (key, fs)" by (cases kf)
  obtain x w1 where u: "upload_files w dirPrefix dirName key fs = (x, w1)"
    by (cases "upload_files w dirPrefix dirName key fs")
  show ?case
  proof (cases x)
    case None
    with Cons u kf show ?thesis by simp
  next
    case (Some a)
    with Cons.prems u kf have "fst (upload_files w dirPrefix dirName key fs) = Some r" by simp
    from upload_files_from_part [OF this] show ?thesis by blast
  qed
qed

lemma post_handler_named:
  assumes "map_of (Value form) ''name'' = Some (dirName # others)"
  shows "post_handler w dirPrefix (Some form) ks =
           (let made = os_Mkdir w (Join [dirPrefix, dirName]) perm_0755 in
            case fst made of
              Some e \<Rightarrow>
                if os_IsExist e then
                  (case upload_fields (log_Printf (LogCreatedDir dirName) (snd made))
                          dirPrefix dirName (range_map (File form) ks) of
                     (Some r, w2) \<Rightarrow> (r, w2)
                   | (None, w2) \<Rightarrow> (Response StatusOK ''Form data received and printed'', w2))
                else (http_Error ''Unable to create directory'' StatusInternalServerError,
                      log_Printf (LogMkdirError e) (snd made))
            | None \<Rightarrow>
                (case upload_fields (log_Printf (LogCreatedDir dirName) (snd made))
                        dirPrefix dirName (range_map (File form) ks) of
                   (Some r, w2) \<Rightarrow> (r, w2)
                 | (None, w2) \<Rightarrow> (Response StatusOK ''Form data received and printed'', w2)))"
  using assms
  by (cases "os_Mkdir w (Join [dirPrefix, dirName]) perm_0755")
     (auto simp: post_handler_def Let_def split: option.splits)

text \<open>
  C10. A form whose \<open>name\<close> field has the single value \<open>""\<close> is never answered 400
  "Directory name not provided". \<open>os.Mkdir\<close> is called on \<open>Join(dirPrefix, "")\<close>,
  which for a non-empty prefix is the cleaned prefix and resolves to the Root Directory
  itself; when the Root Directory exists (and the host does not fail the call for a
  reason of its own) the call returns \<open>EEXIST\<close>, which the handler takes for success,
  and the parts are then processed with the empty directory name: the destination of a
  part is \<open>Join(dirPrefix, "", Filename)\<close>, the same as \<open>Join(dirPrefix, Filename)\<close>,
  directly under the Root Directory.
\<close>

theorem post_empty_name:
  assumes name: "map_of (Value form) ''name'' = Some [[]]"
  shows "fst (post_handler w dirPrefix (Some form) ks)
           \<noteq> http_Error ''Directory name not provided'' StatusBadRequest
         \<and> (dirPrefix \<noteq> [] \<longrightarrow>
              Join [dirPrefix, []] = Clean dirPrefix
              \<and> resolve w (Join [dirPrefix, []]) = resolve w dirPrefix)
         \<and> Join [dirPrefix, [], Filename part] = Join [dirPrefix, Filename part]
         \<and> (dirPrefix \<noteq> [] \<and> map_of (files w) (resolve w dirPrefix) \<noteq> None
             \<and> \<not> fault w (OpMkdir (Join [dirPrefix, []])) \<longrightarrow>
              os_Mkdir w (Join [dirPrefix, []]) perm_0755
                = (Some EEXIST, called (OpMkdir (Join [dirPrefix, []])) w)
              \<and> post_handler w dirPrefix (Some form) ks =
                  (case upload_fields
                          (log_Printf (LogCreatedDir [])
                             (called (OpMkdir (Join [dirPrefix, []])) w))
                          dirPrefix [] (range_map (File form) ks) of
                     (Some r, w2) \<Rightarrow> (r, w2)
                   | (None, w2) \<Rightarrow>
                       (Response StatusOK ''Form data received and printed'', w2)))"
proof -
  note ph = post_handler_named [OF name, of w dirPrefix ks]
  define made where "made = os_Mkdir w (Join [dirPrefix, []]) perm_0755"
  define up where "up = upload_fields (log_Printf (LogCreatedDir []) (snd made))
                          dirPrefix [] (range_map (File form) ks)"
  have up_answer: "fst up = Some r \<Longrightarrow> r \<noteq> http_Error ''Directory name not provided'' StatusBadRequest" for r
  proof -
    assume "fst up = Some r"
    from upload_fields_from_part [OF this [unfolded up_def]]
    obtain w' key f where "fst (upload_file w' dirPrefix [] key f) = Some r" by blast
    from upload_file_answers [OF this] show ?thesis
      by (auto simp: http_Error_def)
  qed
  have after: "fst (case up of (Some r, w2) \<Rightarrow> (r, w2)
                     | (None, w2) \<Rightarrow> (Response StatusOK ''Form data received and printed'', w2))
                 \<noteq> http_Error ''Directory name not provided'' StatusBadRequest"
    using up_answer by (cases up) (auto simp: http_Error_def split: option.splits)
  have provided: "fst (post_handler w dirPrefix (Some form) ks)
           \<noteq> http_Error ''Directory name not provided'' StatusBadRequest"
    using after
    by (cases "fst made")
       (auto simp: ph Let_def made_def [symmetric] up_def [symmetric] http_Error_def)
  have target: "Join [dirPrefix, []] = Clean dirPrefix
                \<and> resolve w (Join [dirPrefix, []]) = resolve w dirPrefix"
    if "dirPrefix \<noteq> []"
    using that by (simp add: Join_empty_name resolve_Clean)
  have exists: "os_Mkdir w (Join [dirPrefix, []]) perm_0755
                = (Some EEXIST, called (OpMkdir (Join [dirPrefix, []])) w)
              \<and> post_handler w dirPrefix (Some form) ks =
                  (case upload_fields
                          (log_Printf (LogCreatedDir [])
                             (called (OpMkdir (Join [dirPrefix, []])) w))
                          dirPrefix [] (range_map (File form) ks) of
                     (Some r, w2) \<Rightarrow> (r, w2)
                   | (None, w2) \<Rightarrow>
                       (Response StatusOK ''Form data received and printed'', w2))"
    if root: "dirPrefix \<noteq> []" "map_of (files w) (resolve w dirPrefix) \<noteq> None"
       "\<not> fault w (OpMkdir (Join [dirPrefix, []]))"
  proof -
    have "Join [dirPrefix, []] \<noteq> []"
      using root(1) by (simp add: Join_empty_name)
    with root target [OF root(1)]
    have mk: "os_Mkdir w (Join [dirPrefix, []]) perm_0755
                = (Some EEXIST, called (OpMkdir (Join [dirPrefix, []])) w)"
      by (auto simp: os_Mkdir_def Let_def)
    then show ?thesis
      by (simp add: ph os_IsExist_def)
  qed
  from provided target exists Join_skips_empty_name [of dirPrefix "Filename part"]
  show ?thesis by blast
qed

theorem post_empty_name_witness:
  "fst (post_handler demo ''/srv/data'' (Some unnamed_form) [''f''])
     = Response StatusOK ''Form data received and printed''
   \<and> calls (snd (post_handler demo ''/srv/data'' (Some unnamed_form) [''f'']))
       = [OpMkdir ''/srv/data'', OpStat ''/srv/data/x.txt'', OpOpenFile ''/srv/data/x.txt'',
          OpCopy ''/srv/data/x.txt'']
   \<and> Join [''/srv/data'', []] = Clean ''/srv/data''
   \<and> os_Mkdir demo (Join [''/srv/data'', []]) perm_0755
       = (Some EEXIST, called (OpMkdir (Join [''/srv/data'', []])) demo)"
proof -
  have name: "map_of (Value unnamed_form) ''name'' = Some [[]]"
    by code_simp
  have root: "''/srv/data'' \<noteq> [] \<and> map_of (files demo) (resolve demo ''/srv/data'') \<noteq> None
              \<and> \<not> fault demo (OpMkdir (Join [''/srv/data'', []]))"
    by code_simp
  have run: "fst (post_handler demo ''/srv/data'' (Some unnamed_form) [''f''])
               = Response StatusOK ''Form data received and printed''"
    "calls (snd (post_handler demo ''/srv/data'' (Some unnamed_form) [''f'']))
       = [OpMkdir ''/srv/data'', OpStat ''/srv/data/x.txt'', OpOpenFile ''/srv/data/x.txt'',
          OpCopy ''/srv/data/x.txt'']"
    by code_simp+
  from post_empty_name [OF name, of demo "''/srv/data''" "[''f'']"] root run
  show ?thesis by blast
qed

section \<open>Paths that leave the Root Directory\<close>

text \<open>
  C4. With \<open>-prefix /srv/data\<close>, virtual paths with \<open>..\<close> resolve outside the Root
  Directory and go through every handler to the file system: \<open>GET\<close> with the path
  \<open>/..\<close> opens \<open>/srv\<close> and lists it, and with \<open>/../secret.txt\<close> opens and stats
  \<open>/srv/secret.txt\<close> before handing it to \<open>http.ServeFile\<close>; \<open>DELETE\<close> with
  \<open>/../secret.txt\<close> removes that file; \<open>POST\<close> with \<open>name=../evil\<close> makes
  \<open>/srv/evil\<close> and writes the part into it. The one check on the resolved path is the
  delete handler's comparison with the root: \<open>DELETE /.\<close> is refused without a call,
  while \<open>GET /.\<close> lists the Root Directory and a \<open>POST\<close> with an empty name writes
  into it.
\<close>

theorem no_containment_check:
  "fst (Abs demo ''/srv/data'') = ''/srv/data''
   \<and> fst (Abs demo (Join [''/srv/data'', ''/..''])) = ''/srv''
   \<and> \<not> under ''/srv/data'' ''/srv''
   \<and> fst (get_handler demo ''/srv/data'' ''/..'')
       = DirListing ''/srv'' [(''data'', ''data/''), (''secret.txt'', ''secret.txt'')]
   \<and> calls (snd (get_handler demo ''/srv/data'' ''/..''))
       = [OpOpen ''/srv'', OpFStat ''/srv'', OpFReadDir ''/srv'']
   \<and> fst (Abs demo (Join [''/srv/data'', ''/../secret.txt''])) = ''/srv/secret.txt''
   \<and> \<not> under ''/srv/data'' ''/srv/secret.txt''
   \<and> fst (get_handler demo ''/srv/data'' ''/../secret.txt'') = ServeFile ''/srv/secret.txt''
   \<and> calls (snd (get_handler demo ''/srv/data'' ''/../secret.txt''))
       = [OpOpen ''/srv/secret.txt'', OpFStat ''/srv/secret.txt'']
   \<and> fst (delete_handler demo ''/srv/data'' ''/../secret.txt'') = Response StatusOK ''Deleted''
   \<and> calls (snd (delete_handler demo ''/srv/data'' ''/../secret.txt''))
       = [OpStat ''/srv/secret.txt'', OpRemove ''/srv/secret.txt'']
   \<and> map_of (files (snd (delete_handler demo ''/srv/data'' ''/../secret.txt'')))
        ''/srv/secret.txt'' = None
   \<and> fst (Abs demo (Join [''/srv/data'', ''../evil'', Filename whole_part])) = ''/srv/evil/x.txt''
   \<and> \<not> under ''/srv/data'' ''/srv/evil/x.txt''
   \<and> fst (post_handler demo ''/srv/data'' (Some escaping_form) [''f''])
       = Response StatusOK ''Form data received and printed''
   \<and> calls (snd (post_handler demo ''/srv/data'' (Some escaping_form) [''f'']))
       = [OpMkdir ''/srv/evil'', OpStat ''/srv/evil/x.txt'', OpOpenFile ''/srv/evil/x.txt'',
          OpCopy ''/srv/evil/x.txt'']
   \<and> map_of (files (snd (post_handler demo ''/srv/data'' (Some escaping_form) [''f''])))
        ''/srv/evil/x.txt'' = Some (FileNode 0x124 ''abc'')
   \<and> fst (delete_handler demo ''/srv/data'' ''/.'')
       = http_Error ''Refusing to delete root directory'' StatusForbidden
   \<and> calls (snd (delete_handler demo ''/srv/data'' ''/.'')) = []
   \<and> fst (get_handler demo ''/srv/data'' ''/.'')
       = DirListing ''/srv/data'' [(''a.txt'', ''a.txt''), (''sub'', ''sub/'')]
   \<and> fst (post_handler demo ''/srv/data'' (Some unnamed_form) [''f''])
       = Response StatusOK ''Form data received and printed''
   \<and> map_of (files (snd (post_handler demo ''/srv/data'' (Some unnamed_form) [''f''])))
        ''/srv/data/x.txt'' = Some (FileNode 0x124 ''abc'')"
  by code_simp

end
